theory Spec2Isabelle
  imports Main "HOL-Library.Sublist"
begin

section \<open>Python string operations used by the entity cleaner\<close>

text \<open>
  Strings are \<^typ>\<open>string\<close>. The case and whitespace operations below are those of
  Python's \<^verbatim>\<open>str\<close> on ASCII text: \<^verbatim>\<open>lower\<close> and \<^verbatim>\<open>title\<close> change the letters
  A-Z and a-z only, and \<^verbatim>\<open>strip\<close>/\<^verbatim>\<open>split\<close> treat the code points 9-13 and 28-32 as
  whitespace. Statements made with these operations are for ASCII input
  (\<open>ascii_text\<close>); the cleaner for every text, with Python's methods as parameters,
  follows in its own section.
\<close>

definition ascii_uppercase :: string where
  "ascii_uppercase = ''ABCDEFGHIJKLMNOPQRSTUVWXYZ''"

definition ascii_lowercase :: string where
  "ascii_lowercase = ''abcdefghijklmnopqrstuvwxyz''"

definition whitespace :: string where
  "whitespace = [CHR 0x09, CHR 0x0A, CHR 0x0B, CHR 0x0C, CHR 0x0D,
                 CHR 0x1C, CHR 0x1D, CHR 0x1E, CHR 0x1F, CHR 0x20]"

definition ascii_text :: "string \<Rightarrow> bool" where
  "ascii_text s = list_all (\<lambda>c. \<not> digit7 c) s"

definition isupper :: "char \<Rightarrow> bool" where
  "isupper c = (c \<in> set ascii_uppercase)"

definition islower :: "char \<Rightarrow> bool" where
  "islower c = (c \<in> set ascii_lowercase)"

definition iscased :: "char \<Rightarrow> bool" where
  "iscased c = (isupper c \<or> islower c)"

definition isspace :: "char \<Rightarrow> bool" where
  "isspace c = (c \<in> set whitespace)"

definition char_lower :: "char \<Rightarrow> char" where
  "char_lower c =
     (case map_of (zip ascii_uppercase ascii_lowercase) c of Some d \<Rightarrow> d | None \<Rightarrow> c)"

definition char_upper :: "char \<Rightarrow> char" where
  "char_upper c =
     (case map_of (zip ascii_lowercase ascii_uppercase) c of Some d \<Rightarrow> d | None \<Rightarrow> c)"

text \<open>\<^verbatim>\<open>s.lower()\<close>\<close>

definition lower :: "string \<Rightarrow> string" where
  "lower s = map char_lower s"

text \<open>
  \<^verbatim>\<open>s.title()\<close>: a character that follows a cased character is lower-cased, any
  other character is upper-cased; the flag is \<^verbatim>\<open>previous_is_cased\<close>.
\<close>

fun title_from :: "bool \<Rightarrow> string \<Rightarrow> string" where
  "title_from previous_is_cased [] = []"
| "title_from previous_is_cased (c # cs) =
     (if previous_is_cased then char_lower c else char_upper c) # title_from (iscased c) cs"

definition title :: "string \<Rightarrow> string" where
  "title s = title_from False s"

text \<open>\<^verbatim>\<open>s.strip()\<close>\<close>

definition lstrip :: "string \<Rightarrow> string" where
  "lstrip s = dropWhile isspace s"

definition rstrip :: "string \<Rightarrow> string" where
  "rstrip s = rev (dropWhile isspace (rev s))"

definition strip :: "string \<Rightarrow> string" where
  "strip s = rstrip (lstrip s)"

text \<open>
  \<^verbatim>\<open>s.split()\<close> without arguments: the maximal runs of non-whitespace characters.
  The first argument is the word being read.
\<close>

fun split_from :: "string \<Rightarrow> string \<Rightarrow> string list" where
  "split_from cur [] = (if cur = [] then [] else [cur])"
| "split_from cur (c # cs) =
     (if isspace c then (if cur = [] then split_from [] cs else cur # split_from [] cs)
      else split_from (cur @ [c]) cs)"

definition split :: "string \<Rightarrow> string list" where
  "split s = split_from [] s"

text \<open>\<^verbatim>\<open>" ".join(words)\<close>\<close>

fun join_space :: "string list \<Rightarrow> string" where
  "join_space [] = []"
| "join_space [w] = w"
| "join_space (w # ws) = w @ CHR '' '' # join_space ws"

text \<open>\<^verbatim>\<open>s.split("/")[0]\<close>: the text before the first slash.\<close>

definition before_slash :: "string \<Rightarrow> string" where
  "before_slash s = takeWhile (\<lambda>c. c \<noteq> CHR ''/'') s"

text \<open>\<^verbatim>\<open>sub in s\<close>\<close>

fun contains :: "'a list \<Rightarrow> 'a list \<Rightarrow> bool" where
  "contains sub [] = (sub = [])"
| "contains sub (c # cs) = (prefix sub (c # cs) \<or> contains sub cs)"

text \<open>
  \<^verbatim>\<open>s.replace(old, "")\<close>: every occurrence of \<open>old\<close> found scanning from the left is
  deleted; an empty \<open>old\<close> leaves the string as it is.
\<close>

function replace_with_empty :: "'a list \<Rightarrow> 'a list \<Rightarrow> 'a list" where
  "replace_with_empty old [] = []"
| "replace_with_empty old (c # cs) =
     (if old \<noteq> [] \<and> prefix old (c # cs)
      then replace_with_empty old (drop (length old) (c # cs))
      else c # replace_with_empty old cs)"
  by pat_completeness auto
termination
  by (relation "measure (\<lambda>(old, s). length s)") (auto simp: neq_Nil_conv)

section \<open>Entity extraction and cleaning (\<^verbatim>\<open>PostClassifier.extract_entities\<close>)\<close>

datatype error =
    ExternalServiceError
  | TimestampError
  | EmptyTitleError
  | IntegrityError

record 'c entities =
  authors :: "'c list option list"
  book_titles :: "'c list option list"

text \<open>
  The title block of \<^verbatim>\<open>extract_entities\<close> (lines 81-91). It runs before the author
  block, so \<open>author\<close> is the raw answer of the question-answering call.
\<close>

definition clean_book_title :: "string \<Rightarrow> string \<Rightarrow> string option" where
  "clean_book_title author book_title =
     (if book_title = [] \<or> lower book_title \<in> set [''booksky'', ''unknown'', ''none'']
      then None
      else
        let bt1 = (if author \<noteq> [] \<and> contains (lower author) (lower book_title)
                   then strip (replace_with_empty (lower author) (lower book_title))
                   else book_title);
            bt2 = strip (before_slash bt1)
        in Some (title bt2))"

text \<open>The author block of \<^verbatim>\<open>extract_entities\<close> (lines 93-98).\<close>

definition clean_author :: "string \<Rightarrow> string option" where
  "clean_author author =
     (if author = [] \<or> lower author \<in> set [''unknown'', ''none'', ''author'', ''anonymous'']
      then None
      else Some (title (join_space (split author))))"

text \<open>
  \<^verbatim>\<open>extract_entities\<close>. The two arguments are the outcomes of \<^verbatim>\<open>extract_author\<close> and
  \<^verbatim>\<open>extract_book_title\<close>, in the order the source calls them: \<open>None\<close> when the
  remote question-answering call raises, otherwise the answer text.
\<close>

definition extract_entities ::
  "string option \<Rightarrow> string option \<Rightarrow> error + char entities" where
  "extract_entities author_answer title_answer =
     (case author_answer of
        None \<Rightarrow> Inl ExternalServiceError
      | Some author \<Rightarrow>
          (case title_answer of
             None \<Rightarrow> Inl ExternalServiceError
           | Some book_title \<Rightarrow>
               Inr \<lparr> authors = [clean_author author],
                     book_titles = [clean_book_title author book_title] \<rparr>))"

section \<open>Title cleaning on ASCII text as the specification words it\<close>


fun ci_prefix :: "string \<Rightarrow> string \<Rightarrow> bool" where
  "ci_prefix [] t = True"
| "ci_prefix (a # as) [] = False"
| "ci_prefix (a # as) (c # cs) = (char_lower a = char_lower c \<and> ci_prefix as cs)"

fun occurs_ci :: "string \<Rightarrow> string \<Rightarrow> bool" where
  "occurs_ci a [] = (a = [])"
| "occurs_ci a (c # cs) = (ci_prefix a (c # cs) \<or> occurs_ci a cs)"



section \<open>Entity cleaning over any character set\<close>

text \<open>
  \<^verbatim>\<open>str.lower\<close>, \<^verbatim>\<open>str.title\<close> and the whitespace test behind \<^verbatim>\<open>str.strip\<close> and
  \<^verbatim>\<open>str.split\<close> come from Python's Unicode tables, which are not code of the
  repository. Here they are parameters, together with the map from the ASCII
  characters of the source's literals to characters of the text, so that the cleaner
  is defined for every text. The operations of the first section are these methods on
  ASCII text (\<open>ascii_methods\<close>).
\<close>

record 'c str_methods =
  str_lower :: "'c list \<Rightarrow> 'c list"
  str_title :: "'c list \<Rightarrow> 'c list"
  is_whitespace :: "'c \<Rightarrow> bool"
  code_point :: "char \<Rightarrow> 'c"

text \<open>A string literal of the source.\<close>

definition lit :: "'c str_methods \<Rightarrow> string \<Rightarrow> 'c list" where
  "lit m w = map (code_point m) w"

text \<open>\<^verbatim>\<open>s.strip()\<close>\<close>

definition lstrip_with :: "'c str_methods \<Rightarrow> 'c list \<Rightarrow> 'c list" where
  "lstrip_with m s = dropWhile (is_whitespace m) s"

definition rstrip_with :: "'c str_methods \<Rightarrow> 'c list \<Rightarrow> 'c list" where
  "rstrip_with m s = rev (dropWhile (is_whitespace m) (rev s))"

definition strip_with :: "'c str_methods \<Rightarrow> 'c list \<Rightarrow> 'c list" where
  "strip_with m s = rstrip_with m (lstrip_with m s)"

text \<open>\<^verbatim>\<open>s.split()\<close>; the second argument is the word being read.\<close>

fun split_from_with :: "'c str_methods \<Rightarrow> 'c list \<Rightarrow> 'c list \<Rightarrow> 'c list list" where
  "split_from_with m cur [] = (if cur = [] then [] else [cur])"
| "split_from_with m cur (c # cs) =
     (if is_whitespace m c
      then (if cur = [] then split_from_with m [] cs else cur # split_from_with m [] cs)
      else split_from_with m (cur @ [c]) cs)"

definition split_with :: "'c str_methods \<Rightarrow> 'c list \<Rightarrow> 'c list list" where
  "split_with m s = split_from_with m [] s"

text \<open>\<^verbatim>\<open>sep.join(words)\<close>\<close>

fun join :: "'c list \<Rightarrow> 'c list list \<Rightarrow> 'c list" where
  "join sep [] = []"
| "join sep [w] = w"
| "join sep (w # ws) = w @ sep @ join sep ws"

text \<open>\<^verbatim>\<open>s.split("/")[0]\<close>\<close>

definition before_slash_with :: "'c str_methods \<Rightarrow> 'c list \<Rightarrow> 'c list" where
  "before_slash_with m s = takeWhile (\<lambda>c. c \<noteq> code_point m (CHR ''/'')) s"

text \<open>The title block of \<^verbatim>\<open>extract_entities\<close> (lines 81-91).\<close>

definition clean_book_title_with ::
  "'c str_methods \<Rightarrow> 'c list \<Rightarrow> 'c list \<Rightarrow> 'c list option" where
  "clean_book_title_with m author book_title =
     (if book_title = [] \<or>
         str_lower m book_title \<in> set (map (lit m) [''booksky'', ''unknown'', ''none''])
      then None
      else
        let bt1 = (if author \<noteq> [] \<and> contains (str_lower m author) (str_lower m book_title)
                   then strip_with m
                          (replace_with_empty (str_lower m author) (str_lower m book_title))
                   else book_title);
            bt2 = strip_with m (before_slash_with m bt1)
        in Some (str_title m bt2))"

text \<open>The author block of \<^verbatim>\<open>extract_entities\<close> (lines 93-98).\<close>

definition clean_author_with :: "'c str_methods \<Rightarrow> 'c list \<Rightarrow> 'c list option" where
  "clean_author_with m author =
     (if author = [] \<or>
         str_lower m author \<in>
           set (map (lit m) [''unknown'', ''none'', ''author'', ''anonymous''])
      then None
      else Some (str_title m (join (lit m '' '') (split_with m author))))"

text \<open>
  \<^verbatim>\<open>extract_entities\<close>; as before, the two arguments are the outcomes of the two
  question-answering calls.
\<close>

definition extract_entities_with ::
  "'c str_methods \<Rightarrow> 'c list option \<Rightarrow> 'c list option \<Rightarrow> error + 'c entities" where
  "extract_entities_with m author_answer title_answer =
     (case author_answer of
        None \<Rightarrow> Inl ExternalServiceError
      | Some author \<Rightarrow>
          (case title_answer of
             None \<Rightarrow> Inl ExternalServiceError
           | Some book_title \<Rightarrow>
               Inr \<lparr> authors = [clean_author_with m author],
                     book_titles = [clean_book_title_with m author book_title] \<rparr>))"

text \<open>The methods on ASCII text, as defined in the first section.\<close>

definition ascii_methods :: "char str_methods" where
  "ascii_methods =
     \<lparr> str_lower = lower, str_title = title, is_whitespace = isspace,
       code_point = (\<lambda>c. c) \<rparr>"

text \<open>
  The methods on text over ASCII, U+0130 (capital I with dot above, 304) and U+0307
  (combining dot above, 775), characters being code points: \<^verbatim>\<open>lower\<close> turns U+0130
  into the two characters i and U+0307, and U+0307 is not cased.
\<close>

definition cp_lower :: "nat \<Rightarrow> nat list" where
  "cp_lower c =
     (if 65 \<le> c \<and> c \<le> 90 then [c + 32] else if c = 304 then [105, 775] else [c])"

definition cp_title :: "nat \<Rightarrow> nat list" where
  "cp_title c = (if 97 \<le> c \<and> c \<le> 122 then [c - 32] else [c])"

definition cp_cased :: "nat \<Rightarrow> bool" where
  "cp_cased c = ((65 \<le> c \<and> c \<le> 90) \<or> (97 \<le> c \<and> c \<le> 122) \<or> c = 304)"

definition cp_space :: "nat \<Rightarrow> bool" where
  "cp_space c = ((9 \<le> c \<and> c \<le> 13) \<or> (28 \<le> c \<and> c \<le> 32))"

fun cp_title_from :: "bool \<Rightarrow> nat list \<Rightarrow> nat list" where
  "cp_title_from previous_is_cased [] = []"
| "cp_title_from previous_is_cased (c # cs) =
     (if previous_is_cased then cp_lower c else cp_title c) @ cp_title_from (cp_cased c) cs"

definition code_point_methods :: "nat str_methods" where
  "code_point_methods =
     \<lparr> str_lower = (\<lambda>s. concat (map cp_lower s)), str_title = cp_title_from False,
       is_whitespace = cp_space, code_point = of_char \<rparr>"

section \<open>The cleaning rules in words\<close>

text \<open>
  The rules as prose states them, written without the operations of the code: they
  share only the parameters.
\<close>

definition same_ignoring_case :: "'c str_methods \<Rightarrow> 'c list \<Rightarrow> 'c list \<Rightarrow> bool" where
  "same_ignoring_case m x y = (str_lower m x = str_lower m y)"

definition is_placeholder :: "'c str_methods \<Rightarrow> string list \<Rightarrow> 'c list \<Rightarrow> bool" where
  "is_placeholder m words txt = list_ex (\<lambda>w. same_ignoring_case m txt (lit m w)) words"

fun drop_leading_space :: "'c str_methods \<Rightarrow> 'c list \<Rightarrow> 'c list" where
  "drop_leading_space m [] = []"
| "drop_leading_space m (c # cs) =
     (if is_whitespace m c then drop_leading_space m cs else c # cs)"

fun drop_trailing_space :: "'c str_methods \<Rightarrow> 'c list \<Rightarrow> 'c list" where
  "drop_trailing_space m [] = []"
| "drop_trailing_space m (c # cs) =
     (if list_all (is_whitespace m) (c # cs) then [] else c # drop_trailing_space m cs)"

definition trimmed :: "'c str_methods \<Rightarrow> 'c list \<Rightarrow> 'c list" where
  "trimmed m s = drop_trailing_space m (drop_leading_space m s)"

text \<open>Each run of whitespace becomes one space; the flag says a run is being read.\<close>

fun collapse_runs :: "'c str_methods \<Rightarrow> bool \<Rightarrow> 'c list \<Rightarrow> 'c list" where
  "collapse_runs m in_run [] = []"
| "collapse_runs m in_run (c # cs) =
     (if is_whitespace m c
      then (if in_run then collapse_runs m True cs
            else code_point m (CHR '' '') # collapse_runs m True cs)
      else c # collapse_runs m False cs)"

fun before_first :: "'a \<Rightarrow> 'a list \<Rightarrow> 'a list" where
  "before_first x [] = []"
| "before_first x (c # cs) = (if c = x then [] else c # before_first x cs)"

definition occurs_in :: "'a list \<Rightarrow> 'a list \<Rightarrow> bool" where
  "occurs_in pat s = list_ex (\<lambda>i. take (length pat) (drop i s) = pat) [0..<Suc (length s)]"

text \<open>
  Deleting the occurrences of \<open>pat\<close> from left to right; \<open>skip\<close> counts the
  characters of an occurrence still to be passed over.
\<close>

fun delete_occurrences :: "'a list \<Rightarrow> nat \<Rightarrow> 'a list \<Rightarrow> 'a list" where
  "delete_occurrences pat skip [] = []"
| "delete_occurrences pat skip (c # cs) =
     (if 0 < skip then delete_occurrences pat (skip - 1) cs
      else if pat \<noteq> [] \<and> take (length pat) (c # cs) = pat
           then delete_occurrences pat (length pat - 1) cs
           else c # delete_occurrences pat 0 cs)"

text \<open>
  Author cleaning: null for an empty or placeholder author; otherwise whitespace runs
  collapsed to single spaces, trimmed, title-cased.
\<close>

definition author_rule :: "'c str_methods \<Rightarrow> 'c list \<Rightarrow> 'c list option" where
  "author_rule m txt =
     (if txt = [] \<or> is_placeholder m [''unknown'', ''none'', ''author'', ''anonymous''] txt
      then None
      else Some (str_title m (trimmed m (collapse_runs m False txt))))"

text \<open>
  Title cleaning as the code does it: null for an empty or placeholder title;
  otherwise, when the author is not empty and its lower-cased form occurs in the
  lower-cased title, the lower-cased title with those occurrences deleted, and else the
  title as given; then the part before the first slash, trimmed, title-cased.
\<close>

definition title_rule :: "'c str_methods \<Rightarrow> 'c list \<Rightarrow> 'c list \<Rightarrow> 'c list option" where
  "title_rule m author txt =
     (if txt = [] \<or> is_placeholder m [''booksky'', ''unknown'', ''none''] txt then None
      else
        let kept = (if author \<noteq> [] \<and> occurs_in (str_lower m author) (str_lower m txt)
                    then delete_occurrences (str_lower m author) 0 (str_lower m txt)
                    else txt)
        in Some (str_title m (trimmed m (before_first (code_point m (CHR ''/'')) kept))))"

text \<open>
  Title cleaning as the specification states it: the occurrences of the author, when
  there is one, are removed from the title as given, a character of the title matching
  a character of the author when both are the same up to case.
\<close>

fun starts_ignoring_case :: "'c str_methods \<Rightarrow> 'c list \<Rightarrow> 'c list \<Rightarrow> bool" where
  "starts_ignoring_case m [] t = True"
| "starts_ignoring_case m (a # as) [] = False"
| "starts_ignoring_case m (a # as) (c # cs) =
     (same_ignoring_case m [a] [c] \<and> starts_ignoring_case m as cs)"

fun remove_ignoring_case :: "'c str_methods \<Rightarrow> 'c list \<Rightarrow> nat \<Rightarrow> 'c list \<Rightarrow> 'c list" where
  "remove_ignoring_case m a skip [] = []"
| "remove_ignoring_case m a skip (c # cs) =
     (if 0 < skip then remove_ignoring_case m a (skip - 1) cs
      else if a \<noteq> [] \<and> starts_ignoring_case m a (c # cs)
           then remove_ignoring_case m a (length a - 1) cs
           else c # remove_ignoring_case m a 0 cs)"

definition stated_title_rule ::
  "'c str_methods \<Rightarrow> 'c list option \<Rightarrow> 'c list \<Rightarrow> 'c list option" where
  "stated_title_rule m author txt =
     (if txt = [] \<or> is_placeholder m [''booksky'', ''unknown'', ''none''] txt then None
      else
        let kept = (case author of
                      None \<Rightarrow> txt
                    | Some a \<Rightarrow> remove_ignoring_case m a 0 txt)
        in Some (str_title m (trimmed m (before_first (code_point m (CHR ''/'')) kept))))"

section \<open>The relational store (\<^verbatim>\<open>database.py\<close>)\<close>

text \<open>
  Each table is the list of its rows in insertion order; \<^verbatim>\<open>.first()\<close> is the first
  matching row. A new row gets the next integer key, one above the largest key of its
  table. Columns declared with a plain type (\<^verbatim>\<open>author: str\<close>) are \<^verbatim>\<open>NOT NULL\<close>;
  foreign keys are declared but not checked on insertion. The \<^verbatim>\<open>saved_at\<close> clock
  column of \<^verbatim>\<open>SavedSkeet\<close> and the \<^verbatim>\<open>User\<close> table, which the classifier never
  writes, are left out.
\<close>

type_synonym datetime = nat

record post =
  p_id :: int
  p_handle :: string
  p_display_name :: string
  p_text :: string
  p_timestamp :: datetime
  p_like_count :: int
  p_uri :: string

record genre =
  g_id :: int
  g_name :: string
  g_description :: "string option"

record book =
  b_id :: int
  b_title :: string
  b_author :: string
  b_genre_id :: int

record classified_post =
  cp_post_id :: int
  cp_genre_id :: int

record saved_skeet =
  ss_id :: int
  ss_post_id :: int
  ss_user_id :: int
  ss_book_id :: "int option"

record store =
  posts :: "post list"
  genres :: "genre list"
  classified_posts :: "classified_post list"
  books :: "book list"
  saved_skeets :: "saved_skeet list"

definition empty_store :: store where
  "empty_store = \<lparr> posts = [], genres = [], classified_posts = [], books = [],
                    saved_skeets = [] \<rparr>"

definition next_id :: "int list \<Rightarrow> int" where
  "next_id ids = foldr max ids 0 + 1"

section \<open>Persistence operations of \<^verbatim>\<open>PostClassifier\<close>\<close>

text \<open>The fields \<^verbatim>\<open>__init__\<close> stores (the inference client is not state of the model).\<close>

record classifier =
  post_text :: string
  handle :: string
  display_name :: string
  like_count :: int
  timestamp :: datetime
  uri :: string

text \<open>
  Lookup of the post by its text, creating it when absent: lines 106-118 of
  \<^verbatim>\<open>save_genre_to_db\<close> and, word for word, lines 169-181 of \<^verbatim>\<open>save_skeet_to_db\<close>.
\<close>

definition lookup_or_add_post :: "classifier \<Rightarrow> store \<Rightarrow> post \<times> store" where
  "lookup_or_add_post self s =
     (case find (\<lambda>p. p_text p = post_text self) (posts s) of
        Some p \<Rightarrow> (p, s)
      | None \<Rightarrow>
          let p = \<lparr> p_id = next_id (map p_id (posts s)), p_handle = handle self,
                    p_display_name = display_name self, p_text = post_text self,
                    p_timestamp = timestamp self, p_like_count = like_count self,
                    p_uri = uri self \<rparr>
          in (p, s\<lparr> posts := posts s @ [p] \<rparr>))"

text \<open>
  Lookup of the genre by name, creating it when absent: lines 120-125 of
  \<^verbatim>\<open>save_genre_to_db\<close> and lines 143-148 of \<^verbatim>\<open>save_book_to_db\<close>.
\<close>

definition lookup_or_add_genre :: "string \<Rightarrow> store \<Rightarrow> genre \<times> store" where
  "lookup_or_add_genre genre_name s =
     (case find (\<lambda>g. g_name g = genre_name) (genres s) of
        Some g \<Rightarrow> (g, s)
      | None \<Rightarrow>
          let g = \<lparr> g_id = next_id (map g_id (genres s)), g_name = genre_name,
                    g_description = None \<rparr>
          in (g, s\<lparr> genres := genres s @ [g] \<rparr>))"

definition save_genre_to_db :: "classifier \<Rightarrow> string \<Rightarrow> store \<Rightarrow> store" where
  "save_genre_to_db self genre_name s =
     (let (post, s1) = lookup_or_add_post self s;
          (genre, s2) = lookup_or_add_genre genre_name s1;
          existing_entry =
            find (\<lambda>r. cp_post_id r = p_id post \<and> cp_genre_id r = g_id genre)
                 (classified_posts s2)
      in if existing_entry = None
         then s2\<lparr> classified_posts := classified_posts s2 @
                    [\<lparr> cp_post_id = p_id post, cp_genre_id = g_id genre \<rparr>] \<rparr>
         else s2)"

text \<open>
  \<^verbatim>\<open>save_book_to_db\<close>. The genre is committed before the title is tested. The author
  may arrive as \<open>None\<close> from the cleaner; the \<open>author\<close> column is \<^verbatim>\<open>NOT NULL\<close>, so no
  stored row matches a null author and the commit of a new row with one is refused.
\<close>

definition save_book_to_db ::
  "string \<Rightarrow> string option \<Rightarrow> string \<Rightarrow> store \<Rightarrow> (error + book) \<times> store" where
  "save_book_to_db book_title author genre_name s =
     (let (genre, s1) = lookup_or_add_genre genre_name s
      in if book_title = [] then (Inl EmptyTitleError, s1)
         else
           (case find (\<lambda>b. b_title b = book_title \<and> Some (b_author b) = author) (books s1) of
              Some existing_book \<Rightarrow> (Inr existing_book, s1)
            | None \<Rightarrow>
                (case author of
                   None \<Rightarrow> (Inl IntegrityError, s1)
                 | Some a \<Rightarrow>
                     let book = \<lparr> b_id = next_id (map b_id (books s1)), b_title = book_title,
                                   b_author = a, b_genre_id = g_id genre \<rparr>
                     in (Inr book, s1\<lparr> books := books s1 @ [book] \<rparr>))))"

text \<open>\<^verbatim>\<open>save_skeet_to_db\<close>; the user id is the constant 1 of the source.\<close>

definition save_skeet_to_db :: "classifier \<Rightarrow> book option \<Rightarrow> store \<Rightarrow> store" where
  "save_skeet_to_db self book s =
     (let (post, s1) = lookup_or_add_post self s
      in case find (\<lambda>r. ss_post_id r = p_id post \<and> ss_user_id r = 1) (saved_skeets s1) of
           Some saved_skeet \<Rightarrow>
             (case book of
                Some b \<Rightarrow>
                  if ss_book_id saved_skeet = None
                  then s1\<lparr> saved_skeets :=
                             map (\<lambda>r. if ss_id r = ss_id saved_skeet
                                       then r\<lparr> ss_book_id := Some (b_id b) \<rparr> else r)
                                 (saved_skeets s1) \<rparr>
                  else s1
              | None \<Rightarrow> s1)
         | None \<Rightarrow>
             s1\<lparr> saved_skeets := saved_skeets s1 @
                   [\<lparr> ss_id = next_id (map ss_id (saved_skeets s1)), ss_post_id = p_id post,
                      ss_user_id = 1, ss_book_id = map_option b_id book \<rparr>] \<rparr>)"

section \<open>The batch pipeline (\<^verbatim>\<open>PostClassifier.classify_and_save_posts\<close>)\<close>

text \<open>
  A fetched post is the dictionary returned by the post source together with what the
  outside world answers while it is processed: the value of
  \<^verbatim>\<open>datetime.fromisoformat\<close> on its timestamp, the label of the zero-shot classifier
  and the two question-answering answers. \<open>None\<close> stands for a call that raises.
\<close>

record raw_post =
  rp_text :: string
  rp_handle :: "string option"
  rp_display_name :: "string option"
  rp_like_count :: "int option"
  rp_timestamp :: string
  rp_uri :: "string option"

record responses =
  fromisoformat :: "datetime option"
  classify_genre :: "string option"
  extract_author :: "string option"
  extract_book_title :: "string option"

definition new_classifier :: "raw_post \<Rightarrow> datetime \<Rightarrow> classifier" where
  "new_classifier post ts =
     \<lparr> post_text = rp_text post,
       handle = (case rp_handle post of Some h \<Rightarrow> h | None \<Rightarrow> ''unknown''),
       display_name = (case rp_display_name post of Some d \<Rightarrow> d | None \<Rightarrow> ''Unknown''),
       like_count = (case rp_like_count post of Some n \<Rightarrow> n | None \<Rightarrow> 0),
       timestamp = ts,
       uri = (case rp_uri post of Some u \<Rightarrow> u | None \<Rightarrow> ''unknown'') \<rparr>"

text \<open>The inner loop over \<^verbatim>\<open>zip(post['authors'], post['book_titles'])\<close> (lines 228-234).\<close>

fun save_entities ::
  "classifier \<Rightarrow> string \<Rightarrow> (string option \<times> string option) list \<Rightarrow> store
   \<Rightarrow> error option \<times> store" where
  "save_entities self genre [] s = (None, s)"
| "save_entities self genre ((author, book_title) # rest) s =
     (case book_title of
        None \<Rightarrow> save_entities self genre rest (save_skeet_to_db self None s)
      | Some t \<Rightarrow>
          if t = [] then save_entities self genre rest (save_skeet_to_db self None s)
          else
            (case save_book_to_db t author genre s of
               (Inl e, s1) \<Rightarrow> (Some e, s1)
             | (Inr book, s1) \<Rightarrow>
                 save_entities self genre rest (save_skeet_to_db self (Some book) s1)))"

text \<open>One iteration of the loop over \<^verbatim>\<open>raw_posts\<close> (lines 211-234).\<close>

definition process_post :: "raw_post \<times> responses \<Rightarrow> store \<Rightarrow> error option \<times> store" where
  "process_post fetched s =
     (let (post, world) = fetched
      in case fromisoformat world of
           None \<Rightarrow> (Some TimestampError, s)
         | Some ts \<Rightarrow>
             let self = new_classifier post ts
             in (case classify_genre world of
                   None \<Rightarrow> (Some ExternalServiceError, s)
                 | Some genre \<Rightarrow>
                     let s1 = save_genre_to_db self genre s
                     in (case extract_entities (extract_author world) (extract_book_title world) of
                           Inl e \<Rightarrow> (Some e, s1)
                         | Inr ents \<Rightarrow>
                             save_entities self genre
                               (zip (authors ents) (book_titles ents)) s1)))"

text \<open>
  The loop itself: an exception leaves the function, so the first failing post ends
  the run. The result is the exception (if any) and the store; the annotated post list
  the source returns is not part of the model.
\<close>

fun classify_and_save_posts ::
  "(raw_post \<times> responses) list \<Rightarrow> store \<Rightarrow> error option \<times> store" where
  "classify_and_save_posts [] s = (None, s)"
| "classify_and_save_posts (fetched # rest) s =
     (case process_post fetched s of
        (Some e, s1) \<Rightarrow> (Some e, s1)
      | (None, s1) \<Rightarrow> classify_and_save_posts rest s1)"

text \<open>Stores built from the empty one by the three persistence operations.\<close>

inductive reachable :: "store \<Rightarrow> bool" where
  reachable_empty: "reachable empty_store"
| reachable_genre: "reachable s \<Longrightarrow> reachable (save_genre_to_db self genre_name s)"
| reachable_book: "reachable s \<Longrightarrow> reachable (snd (save_book_to_db book_title author genre_name s))"
| reachable_skeet: "reachable s \<Longrightarrow> reachable (save_skeet_to_db self book s)"

section \<open>Properties of stores\<close>

text \<open>The natural key of a book: its title and author.\<close>

definition same_book :: "string \<Rightarrow> string \<Rightarrow> book \<Rightarrow> bool" where
  "same_book t a b = (b_title b = t \<and> b_author b = a)"

text \<open>
  Every classification row refers to a stored post and a stored genre, and no
  (post, genre) pair is recorded twice.
\<close>

definition classified_ok :: "store \<Rightarrow> bool" where
  "classified_ok s =
     (list_all (\<lambda>r. list_ex (\<lambda>p. p_id p = cp_post_id r) (posts s) \<and>
                     list_ex (\<lambda>g. g_id g = cp_genre_id r) (genres s)) (classified_posts s) \<and>
      distinct (map (\<lambda>r. (cp_post_id r, cp_genre_id r)) (classified_posts s)))"

text \<open>
  A post is classified when its Post row has a ClassifiedPost row, and persisted when
  it also has a SavedSkeet row of user 1.
\<close>

definition classified :: "classifier \<Rightarrow> store \<Rightarrow> bool" where
  "classified self s =
     (case find (\<lambda>p. p_text p = post_text self) (posts s) of
        None \<Rightarrow> False
      | Some p \<Rightarrow> list_ex (\<lambda>r. cp_post_id r = p_id p) (classified_posts s))"

definition persisted :: "classifier \<Rightarrow> store \<Rightarrow> bool" where
  "persisted self s =
     (case find (\<lambda>p. p_text p = post_text self) (posts s) of
        None \<Rightarrow> False
      | Some p \<Rightarrow>
          list_ex (\<lambda>r. cp_post_id r = p_id p) (classified_posts s) \<and>
          list_ex (\<lambda>r. ss_post_id r = p_id p \<and> ss_user_id r = 1) (saved_skeets s))"

section \<open>Example data\<close>

definition example_classifier :: classifier where
  "example_classifier =
     \<lparr> post_text = ''I loved Dune by Frank Herbert!'', handle = ''h'', display_name = ''H'',
       like_count = 5, timestamp = 0, uri = ''at://1'' \<rparr>"

definition book_seven :: book where
  "book_seven = \<lparr> b_id = 7, b_title = ''Dune'', b_author = ''Frank Herbert'', b_genre_id = 1 \<rparr>"

definition book_nine :: book where
  "book_nine = \<lparr> b_id = 9, b_title = ''Emma'', b_author = ''Jane Austen'', b_genre_id = 2 \<rparr>"

definition raw :: "string \<Rightarrow> raw_post" where
  "raw t = \<lparr> rp_text = t, rp_handle = Some ''h'', rp_display_name = Some ''H'',
             rp_like_count = Some 5, rp_timestamp = ''2024-01-01T00:00:00'',
             rp_uri = Some ''at://1'' \<rparr>"

definition answers :: "string option \<Rightarrow> string \<Rightarrow> string \<Rightarrow> responses" where
  "answers label author book_title =
     \<lparr> fromisoformat = Some 0, classify_genre = label,
       extract_author = Some author, extract_book_title = Some book_title \<rparr>"

definition three_posts :: "(raw_post \<times> responses) list" where
  "three_posts =
     [(raw ''first'', answers (Some ''fantasy'') ''Ann Lee'' ''Dune''),
      (raw ''second'', answers None ''Ann Lee'' ''Dune''),
      (raw ''third'', answers (Some ''fantasy'') ''Ann Lee'' ''Dune'')]"

definition first_store :: store where
  "first_store =
     \<lparr> posts = [\<lparr> p_id = 1, p_handle = ''h'', p_display_name = ''H'', p_text = ''first'',
                  p_timestamp = 0, p_like_count = 5, p_uri = ''at://1'' \<rparr>],
       genres = [\<lparr> g_id = 1, g_name = ''fantasy'', g_description = None \<rparr>],
       classified_posts = [\<lparr> cp_post_id = 1, cp_genre_id = 1 \<rparr>],
       books = [\<lparr> b_id = 1, b_title = ''Dune'', b_author = ''Ann Lee'', b_genre_id = 1 \<rparr>],
       saved_skeets = [\<lparr> ss_id = 1, ss_post_id = 1, ss_user_id = 1, ss_book_id = Some 1 \<rparr>] \<rparr>"

definition bookless_store :: store where
  "bookless_store =
     \<lparr> posts = [\<lparr> p_id = 1, p_handle = ''h'', p_display_name = ''H'', p_text = ''first'',
                  p_timestamp = 0, p_like_count = 5, p_uri = ''at://1'' \<rparr>],
       genres = [\<lparr> g_id = 1, g_name = ''fantasy'', g_description = None \<rparr>],
       classified_posts = [\<lparr> cp_post_id = 1, cp_genre_id = 1 \<rparr>],
       books = [],
       saved_skeets = [\<lparr> ss_id = 1, ss_post_id = 1, ss_user_id = 1, ss_book_id = None \<rparr>] \<rparr>"

definition second_store :: store where
  "second_store =
     \<lparr> posts = [\<lparr> p_id = 1, p_handle = ''h'', p_display_name = ''H'', p_text = ''first'',
                  p_timestamp = 0, p_like_count = 5, p_uri = ''at://1'' \<rparr>],
       genres = [\<lparr> g_id = 1, g_name = ''fantasy'', g_description = None \<rparr>],
       classified_posts = [\<lparr> cp_post_id = 1, cp_genre_id = 1 \<rparr>],
       books = [\<lparr> b_id = 1, b_title = ''Dune'', b_author = ''Ann Lee'', b_genre_id = 1 \<rparr>,
                \<lparr> b_id = 2, b_title = ''Emma'', b_author = ''Ann Lee'', b_genre_id = 1 \<rparr>],
       saved_skeets = [\<lparr> ss_id = 1, ss_post_id = 1, ss_user_id = 1, ss_book_id = Some 1 \<rparr>] \<rparr>"

section \<open>Evaluation rules\<close>

lemmas char_defs = char_lower_def char_upper_def isupper_def islower_def iscased_def
  isspace_def ascii_uppercase_def ascii_lowercase_def whitespace_def

lemmas store_defs = empty_store_def next_id_def lookup_or_add_post_def lookup_or_add_genre_def
  save_genre_to_db_def save_book_to_db_def save_skeet_to_db_def example_classifier_def

lemmas pipeline_defs = process_post_def extract_entities_def new_classifier_def raw_def
  answers_def three_posts_def clean_book_title_def clean_author_def


lemmas rule_defs = author_rule_def is_placeholder_def same_ignoring_case_def trimmed_def
  lit_def ascii_methods_def

lemmas title_rule_defs = title_rule_def stated_title_rule_def occurs_in_def

lemmas code_point_defs = code_point_methods_def cp_lower_def cp_title_def cp_cased_def
  cp_space_def

lemmas str_defs = lower_def title_def lstrip_def rstrip_def strip_def split_def
  before_slash_def ascii_text_def

section \<open>Facts about the string operations\<close>

lemma space_is_space: "isspace (CHR '' '')"
  by (simp add: char_defs)











lemma rstrip_Cons:
  "rstrip (c # s) = (if isspace c \<and> rstrip s = [] then [] else c # rstrip s)"
  by (simp add: rstrip_def dropWhile_append)

lemma rstrip_Nil: "rstrip [] = []"
  by (simp add: rstrip_def)


lemma rstrip_idem: "rstrip (rstrip s) = rstrip s"
  by (induction s) (simp_all add: rstrip_Nil rstrip_Cons)







lemma occurs_ci_Nil: "occurs_ci [] t"
  by (induction t) simp_all



section \<open>Facts about cleaning over any character set\<close>

lemma rstrip_with_Nil: "rstrip_with m [] = []"
  by (simp add: rstrip_with_def)

lemma rstrip_with_Cons:
  "rstrip_with m (c # s) =
     (if is_whitespace m c \<and> rstrip_with m s = [] then [] else c # rstrip_with m s)"
  by (simp add: rstrip_with_def dropWhile_append)

lemma rstrip_with_empty: "(rstrip_with m s = []) = list_all (is_whitespace m) s"
  by (induction s) (simp_all add: rstrip_with_Nil rstrip_with_Cons)

lemma rstrip_with_trailing: "rstrip_with m s = drop_trailing_space m s"
proof (induction s)
  case Nil
  show ?case by (simp add: rstrip_with_Nil)
next
  case (Cons c s)
  have "(drop_trailing_space m s = []) = list_all (is_whitespace m) s"
    using Cons rstrip_with_empty [of m s] by simp
  then show ?case using Cons by (simp add: rstrip_with_Cons)
qed

lemma lstrip_with_leading: "lstrip_with m s = drop_leading_space m s"
  by (induction s) (simp_all add: lstrip_with_def)

lemma strip_with_trimmed: "strip_with m s = trimmed m s"
  by (simp add: strip_with_def trimmed_def rstrip_with_trailing lstrip_with_leading)

lemma lit_space: "lit m '' '' = [code_point m (CHR '' '')]"
  by (simp add: lit_def)

lemma split_from_with_nonempty:
  "[] \<notin> set (split_from_with m [] s)"
  "cur \<noteq> [] \<Longrightarrow> [] \<notin> set (split_from_with m cur s)"
  by (induction s arbitrary: cur) auto

lemma join_Cons: "join sep (w # ws) = w @ (if ws = [] then [] else sep @ join sep ws)"
  by (cases ws) simp_all

lemma join_empty: "[] \<notin> set ws \<Longrightarrow> (join sep ws = []) = (ws = [])"
  by (cases ws) (auto simp add: join_Cons)

lemma join_split_from_with:
  assumes sp: "is_whitespace m (code_point m (CHR '' ''))"
  shows "join (lit m '' '') (split_from_with m [] s) = rstrip_with m (collapse_runs m True s)"
    and "cur \<noteq> [] \<Longrightarrow>
         join (lit m '' '') (split_from_with m cur s) = cur @ rstrip_with m (collapse_runs m False s)"
proof (induction s arbitrary: cur)
  case Nil
  { case 1 show ?case by (simp add: rstrip_with_Nil) }
  { case 2 then show ?case by (simp add: rstrip_with_Nil) }
next
  case (Cons c s)
  have e: "(split_from_with m [] s = []) = (rstrip_with m (collapse_runs m True s) = [])"
    using Cons(1) split_from_with_nonempty(1) [of m s]
      join_empty [of "split_from_with m [] s" "lit m '' ''"] by simp
  { case 1
    show ?case
    proof (cases "is_whitespace m c")
      case True
      then show ?thesis using Cons(1) by simp
    next
      case False
      then show ?thesis using Cons(2) [of "[c]"] by (simp add: rstrip_with_Cons)
    qed }
  { case 2
    show ?case
    proof (cases "is_whitespace m c")
      case True
      then show ?thesis using Cons(1) e 2 sp
        by (simp add: join_Cons rstrip_with_Cons lit_space)
    next
      case False
      then show ?thesis using Cons(2) [of "cur @ [c]"] by (simp add: rstrip_with_Cons)
    qed }
qed

lemma lstrip_with_collapse:
  assumes sp: "is_whitespace m (code_point m (CHR '' ''))"
  shows "lstrip_with m (collapse_runs m False s) = collapse_runs m True s"
proof (cases s)
  case Nil
  then show ?thesis by (simp add: lstrip_with_def)
next
  case (Cons c cs)
  have "lstrip_with m (collapse_runs m True cs) = collapse_runs m True cs"
    by (induction cs) (simp_all add: lstrip_with_def)
  with Cons sp show ?thesis by (simp add: lstrip_with_def)
qed

lemma join_split_with:
  assumes "is_whitespace m (code_point m (CHR '' ''))"
  shows "join (lit m '' '') (split_with m s) = trimmed m (collapse_runs m False s)"
  using join_split_from_with(1) [OF assms, of s] lstrip_with_collapse [OF assms, of s]
    strip_with_trimmed [of m "collapse_runs m False s"]
  by (simp add: split_with_def strip_with_def)

lemma lower_in_placeholders:
  assumes "list_all (\<lambda>w. str_lower m (lit m w) = lit m w) words"
  shows "(str_lower m txt \<in> set (map (lit m) words)) = is_placeholder m words txt"
  using assms
  by (induction words) (auto simp add: is_placeholder_def same_ignoring_case_def)

lemma strip_with_ascii: "strip_with ascii_methods s = strip s"
  by (simp add: strip_with_def lstrip_with_def rstrip_with_def strip_def lstrip_def rstrip_def
        ascii_methods_def)

lemma split_from_with_ascii: "split_from_with ascii_methods cur s = split_from cur s"
  by (induction s arbitrary: cur) (simp_all add: ascii_methods_def)

lemma join_ascii: "join '' '' ws = join_space ws"
  by (induction ws rule: join_space.induct) simp_all

lemma before_slash_with_ascii: "before_slash_with ascii_methods s = before_slash s"
  by (simp add: before_slash_with_def before_slash_def ascii_methods_def)

lemma lit_ascii: "lit ascii_methods w = w"
  by (simp add: lit_def ascii_methods_def)

lemma clean_author_with_ascii: "clean_author_with ascii_methods a = clean_author a"
  by (simp add: clean_author_with_def clean_author_def split_with_def split_def
        split_from_with_ascii join_ascii lit_ascii)
     (simp add: ascii_methods_def)

lemma clean_book_title_with_ascii:
  "clean_book_title_with ascii_methods a t = clean_book_title a t"
  by (simp add: clean_book_title_with_def clean_book_title_def strip_with_ascii
        before_slash_with_ascii lit_ascii)
     (simp add: ascii_methods_def)

lemma extract_entities_with_ascii:
  "extract_entities_with ascii_methods a t = extract_entities a t"
  by (simp add: extract_entities_with_def extract_entities_def clean_author_with_ascii
        clean_book_title_with_ascii split: option.splits)

lemma before_slash_with_first:
  "before_slash_with m s = before_first (code_point m (CHR ''/'')) s"
  by (induction s) (simp_all add: before_slash_with_def)

lemma prefix_take: "prefix pat s = (take (length pat) s = pat)"
  by (metis append_eq_conv_conj prefix_def take_is_prefix)

lemma occurs_in_iff:
  "occurs_in pat s = (\<exists>i<Suc (length s). take (length pat) (drop i s) = pat)"
  by (simp only: occurs_in_def list_ex_iff set_upt Bex_def atLeastLessThan_iff) simp

lemma occurs_in_Nil: "occurs_in pat [] = (pat = [])"
  by (auto simp add: occurs_in_iff)

lemma occurs_in_Cons:
  "occurs_in pat (c # cs) = (take (length pat) (c # cs) = pat \<or> occurs_in pat cs)"
proof -
  have "occurs_in pat (c # cs) =
          (\<exists>i<Suc (Suc (length cs)). take (length pat) (drop i (c # cs)) = pat)"
    by (simp add: occurs_in_iff)
  also have "\<dots> = (take (length pat) (c # cs) = pat \<or>
                   (\<exists>i<Suc (length cs). take (length pat) (drop i cs) = pat))"
    by (subst Ex_less_Suc2) simp
  finally show ?thesis by (simp add: occurs_in_iff)
qed

lemma contains_occurs_in: "contains pat s = occurs_in pat s"
  by (induction s) (auto simp add: occurs_in_Nil occurs_in_Cons prefix_take)

lemma replace_delete_occurrences:
  "delete_occurrences pat k s = replace_with_empty pat (drop k s)"
proof (induction s arbitrary: k)
  case Nil
  show ?case by simp
next
  case (Cons c cs)
  show ?case
  proof (cases "0 < k")
    case True
    then obtain j where k: "k = Suc j" by (cases k) auto
    with Cons [of j] show ?thesis by simp
  next
    case False
    then have k: "k = 0" by simp
    show ?thesis
    proof (cases "pat \<noteq> [] \<and> take (length pat) (c # cs) = pat")
      case True
      then obtain n where n: "length pat = Suc n" by (cases pat) auto
      have "prefix pat (c # cs)" using True by (simp add: prefix_take)
      with True k n Cons [of n] show ?thesis by simp
    next
      case False
      then have "\<not> (pat \<noteq> [] \<and> prefix pat (c # cs))" by (simp add: prefix_take)
      with False k Cons [of 0] show ?thesis by auto
    qed
  qed
qed

lemma lstrip_with_before_slash:
  assumes "\<not> is_whitespace m (code_point m (CHR ''/''))"
  shows "lstrip_with m (before_slash_with m s) = before_slash_with m (lstrip_with m s)"
  using assms by (induction s) (auto simp add: lstrip_with_def before_slash_with_def)

lemma rstrip_with_before_slash:
  assumes "\<not> is_whitespace m (code_point m (CHR ''/''))"
  shows "rstrip_with m (before_slash_with m (rstrip_with m s)) =
         rstrip_with m (before_slash_with m s)"
proof (induction s)
  case Nil
  show ?case by (simp add: rstrip_with_Nil before_slash_with_def)
next
  case (Cons c s)
  then show ?case using assms
    by (auto simp add: rstrip_with_Cons rstrip_with_Nil before_slash_with_def)
qed

lemma lstrip_with_idem: "lstrip_with m (lstrip_with m s) = lstrip_with m s"
  by (induction s) (simp_all add: lstrip_with_def)

lemma lstrip_with_rstrip_with:
  "lstrip_with m (rstrip_with m s) = rstrip_with m (lstrip_with m s)"
proof (induction s)
  case Nil
  show ?case by (simp add: rstrip_with_Nil lstrip_with_def)
next
  case (Cons c s)
  show ?case
  proof (cases "is_whitespace m c")
    case True
    have "rstrip_with m s = [] \<Longrightarrow> rstrip_with m (lstrip_with m s) = []"
      using Cons by (simp add: lstrip_with_def)
    with True Cons show ?thesis
      by (auto simp add: rstrip_with_Cons lstrip_with_def)
  next
    case False
    then show ?thesis by (simp add: rstrip_with_Cons lstrip_with_def)
  qed
qed

lemma strip_with_before_slash_strip:
  assumes sl: "\<not> is_whitespace m (code_point m (CHR ''/''))"
  shows "strip_with m (before_slash_with m (strip_with m s)) =
         strip_with m (before_slash_with m s)"
proof -
  have "strip_with m (before_slash_with m (strip_with m s)) =
          rstrip_with m (before_slash_with m (lstrip_with m (rstrip_with m (lstrip_with m s))))"
    by (simp add: strip_with_def lstrip_with_before_slash [OF sl])
  also have "\<dots> = rstrip_with m (before_slash_with m (rstrip_with m (lstrip_with m s)))"
    by (simp add: lstrip_with_rstrip_with lstrip_with_idem)
  also have "\<dots> = rstrip_with m (before_slash_with m (lstrip_with m s))"
    by (rule rstrip_with_before_slash [OF sl])
  finally show ?thesis by (simp add: strip_with_def lstrip_with_before_slash [OF sl])
qed

lemma clean_book_title_with_rule:
  assumes sl: "\<not> is_whitespace m (code_point m (CHR ''/''))"
    and ph: "list_all (\<lambda>w. str_lower m (lit m w) = lit m w) [''booksky'', ''unknown'', ''none'']"
  shows "clean_book_title_with m author txt = title_rule m author txt"
proof -
  have "strip_with m (before_slash_with m (strip_with m s)) =
          trimmed m (before_first (code_point m (CHR ''/'')) s)" for s
    unfolding strip_with_before_slash_strip [OF sl]
    by (simp add: strip_with_trimmed before_slash_with_first)
  moreover have "strip_with m (before_slash_with m s) =
          trimmed m (before_first (code_point m (CHR ''/'')) s)" for s
    by (simp add: strip_with_trimmed before_slash_with_first)
  ultimately show ?thesis
    unfolding clean_book_title_with_def title_rule_def lower_in_placeholders [OF ph]
    by (simp add: Let_def contains_occurs_in replace_delete_occurrences)
qed

section \<open>Facts about the persistence operations\<close>

lemma find_snoc:
  "find P (xs @ [y]) = (case find P xs of Some x \<Rightarrow> Some x | None \<Rightarrow> if P y then Some y else None)"
  by (induction xs) simp_all

lemma foldr_max_ge: "x \<in> set ids \<Longrightarrow> x \<le> foldr max ids (0::int)"
  by (induction ids) auto

lemma next_id_fresh: "x \<in> set ids \<Longrightarrow> x < next_id ids"
  using foldr_max_ge [of x ids] by (simp add: next_id_def)

lemma find_None_filter: "(find P xs = None) = (filter P xs = [])"
  by (induction xs) simp_all

lemma find_Some_filter: "find P xs = Some x \<Longrightarrow> filter P xs \<noteq> []"
  by (induction xs) (auto split: if_splits)

lemma lookup_or_add_genre_cases:
  "lookup_or_add_genre n s = (g, s1) \<Longrightarrow>
     (find (\<lambda>g. g_name g = n) (genres s) = Some g \<and> s1 = s) \<or>
     (find (\<lambda>g. g_name g = n) (genres s) = None \<and>
      g = \<lparr> g_id = next_id (map g_id (genres s)), g_name = n, g_description = None \<rparr> \<and>
      s1 = s\<lparr> genres := genres s @ [g] \<rparr>)"
  by (auto simp add: lookup_or_add_genre_def Let_def split: option.splits)

lemma lookup_or_add_genre_found:
  "lookup_or_add_genre n s = (g, s1) \<Longrightarrow> find (\<lambda>g. g_name g = n) (genres s1) = Some g"
  by (drule lookup_or_add_genre_cases) (auto simp add: find_snoc)

lemma lookup_or_add_genre_again:
  "lookup_or_add_genre n s = (g, s1) \<Longrightarrow> lookup_or_add_genre n s1 = (g, s1)"
  by (drule lookup_or_add_genre_found) (simp add: lookup_or_add_genre_def)

lemma lookup_or_add_genre_frame:
  "lookup_or_add_genre n s = (g, s1) \<Longrightarrow>
     posts s1 = posts s \<and> books s1 = books s \<and> classified_posts s1 = classified_posts s \<and>
     saved_skeets s1 = saved_skeets s \<and> set (genres s) \<subseteq> set (genres s1) \<and> g \<in> set (genres s1)"
  by (drule lookup_or_add_genre_cases) (auto dest: find_Some_iff [THEN iffD1] simp: in_set_conv_nth)

lemma lookup_or_add_genre_count:
  "lookup_or_add_genre n s = (g, s1) \<Longrightarrow>
     length (filter (\<lambda>g. g_name g = n) (genres s1)) =
       (if filter (\<lambda>g. g_name g = n) (genres s) = [] then 1
        else length (filter (\<lambda>g. g_name g = n) (genres s)))"
  by (drule lookup_or_add_genre_cases) (auto simp add: find_None_filter dest: find_Some_filter)

lemma lookup_or_add_post_cases:
  "lookup_or_add_post c s = (p, s1) \<Longrightarrow>
     (find (\<lambda>p. p_text p = post_text c) (posts s) = Some p \<and> s1 = s) \<or>
     (find (\<lambda>p. p_text p = post_text c) (posts s) = None \<and>
      p_id p = next_id (map p_id (posts s)) \<and> p_text p = post_text c \<and>
      s1 = s\<lparr> posts := posts s @ [p] \<rparr>)"
  by (auto simp add: lookup_or_add_post_def Let_def split: option.splits)

lemma lookup_or_add_post_found:
  "lookup_or_add_post c s = (p, s1) \<Longrightarrow> find (\<lambda>p. p_text p = post_text c) (posts s1) = Some p"
  by (drule lookup_or_add_post_cases) (auto simp add: find_snoc)

lemma lookup_or_add_post_again:
  "lookup_or_add_post c s = (p, s1) \<Longrightarrow> lookup_or_add_post c s1 = (p, s1)"
  by (drule lookup_or_add_post_found) (simp add: lookup_or_add_post_def)

lemma find_Some_mem: "find P xs = Some x \<Longrightarrow> x \<in> set xs \<and> P x"
  by (induction xs) (auto split: if_splits)

lemma lookup_or_add_post_frame:
  "lookup_or_add_post c s = (p, s1) \<Longrightarrow>
     genres s1 = genres s \<and> books s1 = books s \<and> classified_posts s1 = classified_posts s \<and>
     saved_skeets s1 = saved_skeets s \<and> set (posts s) \<subseteq> set (posts s1) \<and> p \<in> set (posts s1)"
  by (drule lookup_or_add_post_cases) (auto dest: find_Some_mem)


lemma save_book_to_db_cases:
  assumes "save_book_to_db t (Some a) n s = (r, s2)" and "t \<noteq> []"
  obtains g s1 b where "lookup_or_add_genre n s = (g, s1)" and "r = Inr b"
    and "(find (same_book t a) (books s) = Some b \<and> s2 = s1) \<or>
         (find (same_book t a) (books s) = None \<and>
          b = \<lparr> b_id = next_id (map b_id (books s)), b_title = t, b_author = a,
                b_genre_id = g_id g \<rparr> \<and>
          s2 = s1\<lparr> books := books s @ [b] \<rparr>)"
proof -
  obtain g s1 where l: "lookup_or_add_genre n s = (g, s1)" by (cases "lookup_or_add_genre n s")
  then have bk: "books s1 = books s" by (simp add: lookup_or_add_genre_frame)
  have eq: "(\<lambda>b. b_title b = t \<and> Some (b_author b) = Some a) = same_book t a"
    by (auto simp add: same_book_def fun_eq_iff)
  show ?thesis
  proof (cases "find (same_book t a) (books s)")
    case None
    with assms l bk eq show ?thesis
      by (intro that [of g s1]) (auto simp add: save_book_to_db_def Let_def)
  next
    case (Some b)
    with assms l bk eq show ?thesis
      by (intro that [of g s1 b]) (auto simp add: save_book_to_db_def Let_def)
  qed
qed

lemma save_book_to_db_found:
  assumes "save_book_to_db t (Some a) n s = (r, s2)" and "t \<noteq> []"
  shows "\<exists>b. r = Inr b \<and> find (same_book t a) (books s2) = Some b \<and>
             length (filter (same_book t a) (books s2)) =
               (if filter (same_book t a) (books s) = [] then 1
                else length (filter (same_book t a) (books s)))"
proof -
  from assms obtain g s1 b where l: "lookup_or_add_genre n s = (g, s1)" and r: "r = Inr b"
    and c: "(find (same_book t a) (books s) = Some b \<and> s2 = s1) \<or>
         (find (same_book t a) (books s) = None \<and>
          b = \<lparr> b_id = next_id (map b_id (books s)), b_title = t, b_author = a,
                b_genre_id = g_id g \<rparr> \<and>
          s2 = s1\<lparr> books := books s @ [b] \<rparr>)"
    by (rule save_book_to_db_cases)
  from l have bk: "books s1 = books s" by (simp add: lookup_or_add_genre_frame)
  from c show ?thesis
  proof
    assume "find (same_book t a) (books s) = Some b \<and> s2 = s1"
    with r bk show ?thesis by (auto dest: find_Some_filter)
  next
    assume n: "find (same_book t a) (books s) = None \<and>
          b = \<lparr> b_id = next_id (map b_id (books s)), b_title = t, b_author = a,
                b_genre_id = g_id g \<rparr> \<and>
          s2 = s1\<lparr> books := books s @ [b] \<rparr>"
    then have sb: "same_book t a b" by (simp add: same_book_def)
    from n have fn: "find (same_book t a) (books s) = None" by simp
    then have fl: "filter (same_book t a) (books s) = []" by (simp add: find_None_filter)
    from n have s2: "books s2 = books s @ [b]" by simp
    show ?thesis using r sb fn fl s2 by (simp add: find_snoc)
  qed
qed

lemma save_book_to_db_existing:
  assumes "find (same_book t a) (books s) = Some b" and "t \<noteq> []"
  shows "fst (save_book_to_db t (Some a) n s) = Inr b \<and>
         books (snd (save_book_to_db t (Some a) n s)) = books s"
proof -
  obtain r s2 where e: "save_book_to_db t (Some a) n s = (r, s2)"
    by (cases "save_book_to_db t (Some a) n s")
  from e assms(2) obtain g s1 b' where l: "lookup_or_add_genre n s = (g, s1)" and r: "r = Inr b'"
    and c: "(find (same_book t a) (books s) = Some b' \<and> s2 = s1) \<or>
         (find (same_book t a) (books s) = None \<and>
          b' = \<lparr> b_id = next_id (map b_id (books s)), b_title = t, b_author = a,
                b_genre_id = g_id g \<rparr> \<and>
          s2 = s1\<lparr> books := books s @ [b'] \<rparr>)"
    by (rule save_book_to_db_cases)
  from l have bk: "books s1 = books s" by (simp add: lookup_or_add_genre_frame)
  from c assms(1) r bk e show ?thesis by auto
qed

lemma save_book_empty_title:
  "save_book_to_db [] a n s = (Inl EmptyTitleError, snd (lookup_or_add_genre n s))"
  by (simp add: save_book_to_db_def Let_def split: prod.splits)


lemma classified_ok_alt:
  "classified_ok s =
     ((\<forall>r \<in> set (classified_posts s).
         (\<exists>p \<in> set (posts s). p_id p = cp_post_id r) \<and>
         (\<exists>g \<in> set (genres s). g_id g = cp_genre_id r)) \<and>
      distinct (map (\<lambda>r. (cp_post_id r, cp_genre_id r)) (classified_posts s)))"
  by (simp add: classified_ok_def list_all_iff list_ex_iff)

lemma classified_ok_mono:
  assumes ok: "classified_ok s" and cp: "classified_posts s1 = classified_posts s"
    and ps: "set (posts s) \<subseteq> set (posts s1)" and gs: "set (genres s) \<subseteq> set (genres s1)"
  shows "classified_ok s1"
proof -
  have d: "distinct (map (\<lambda>r. (cp_post_id r, cp_genre_id r)) (classified_posts s1))"
    using ok cp by (simp add: classified_ok_alt)
  have "(\<exists>p \<in> set (posts s1). p_id p = cp_post_id r) \<and>
        (\<exists>g \<in> set (genres s1). g_id g = cp_genre_id r)"
    if r: "r \<in> set (classified_posts s1)" for r
  proof -
    from r cp ok obtain p g where "p \<in> set (posts s)" "p_id p = cp_post_id r"
      "g \<in> set (genres s)" "g_id g = cp_genre_id r"
      unfolding classified_ok_alt by force
    with ps gs show ?thesis by (meson subsetD)
  qed
  with d show ?thesis by (simp add: classified_ok_alt)
qed

lemma find_pair_None:
  "find (\<lambda>r. cp_post_id r = i \<and> cp_genre_id r = j) rows = None \<Longrightarrow>
     (i, j) \<notin> set (map (\<lambda>r. (cp_post_id r, cp_genre_id r)) rows)"
  by (induction rows) (auto split: if_splits)

lemma save_genre_to_db_ok:
  assumes "classified_ok s"
  shows "classified_ok (save_genre_to_db c n s)"
proof -
  obtain p s1 where lp: "lookup_or_add_post c s = (p, s1)" by (cases "lookup_or_add_post c s")
  obtain g s2 where lg: "lookup_or_add_genre n s1 = (g, s2)" by (cases "lookup_or_add_genre n s1")
  note fp = lookup_or_add_post_frame [OF lp]
  note fg = lookup_or_add_genre_frame [OF lg]
  have ok2: "classified_ok s2"
  proof (rule classified_ok_mono [OF assms])
    show "classified_posts s2 = classified_posts s" using fp fg by simp
    show "set (posts s) \<subseteq> set (posts s2)" using fp fg by simp
    show "set (genres s) \<subseteq> set (genres s2)" using fp fg by simp
  qed
  show ?thesis
  proof (cases "find (\<lambda>r. cp_post_id r = p_id p \<and> cp_genre_id r = g_id g) (classified_posts s2)")
    case None
    have pin: "p \<in> set (posts s2)" and gin: "g \<in> set (genres s2)" using fp fg by auto
    let ?row = "\<lparr> cp_post_id = p_id p, cp_genre_id = g_id g \<rparr>"
    let ?s3 = "s2\<lparr> classified_posts := classified_posts s2 @ [?row] \<rparr>"
    have d: "distinct (map (\<lambda>r. (cp_post_id r, cp_genre_id r)) (classified_posts ?s3))"
      using ok2 find_pair_None [OF None] by (simp add: classified_ok_alt)
    have "(\<exists>p \<in> set (posts ?s3). p_id p = cp_post_id r) \<and>
          (\<exists>g \<in> set (genres ?s3). g_id g = cp_genre_id r)"
      if r: "r \<in> set (classified_posts ?s3)" for r
    proof (cases "r = ?row")
      case True
      with pin gin show ?thesis by auto
    next
      case False
      with r have "r \<in> set (classified_posts s2)" by simp
      with ok2 show ?thesis by (simp add: classified_ok_alt)
    qed
    with d have "classified_ok ?s3" unfolding classified_ok_alt by blast
    with None lp lg show ?thesis by (simp add: save_genre_to_db_def)
  next
    case (Some r)
    with ok2 lp lg show ?thesis by (simp add: save_genre_to_db_def)
  qed
qed

lemma save_book_to_db_frame:
  "posts (snd (save_book_to_db t a n s)) = posts s \<and>
   classified_posts (snd (save_book_to_db t a n s)) = classified_posts s \<and>
   saved_skeets (snd (save_book_to_db t a n s)) = saved_skeets s \<and>
   set (genres s) \<subseteq> set (genres (snd (save_book_to_db t a n s)))"
proof -
  obtain g s1 where lg: "lookup_or_add_genre n s = (g, s1)" by (cases "lookup_or_add_genre n s")
  note fg = lookup_or_add_genre_frame [OF lg]
  show ?thesis using lg fg
    by (auto simp add: save_book_to_db_def Let_def split: option.splits)
qed

lemma save_skeet_to_db_frame:
  "classified_posts (save_skeet_to_db c b s) = classified_posts s \<and>
   genres (save_skeet_to_db c b s) = genres s \<and>
   books (save_skeet_to_db c b s) = books s \<and>
   set (posts s) \<subseteq> set (posts (save_skeet_to_db c b s))"
proof -
  obtain p s1 where lp: "lookup_or_add_post c s = (p, s1)" by (cases "lookup_or_add_post c s")
  note fp = lookup_or_add_post_frame [OF lp]
  show ?thesis using lp fp
    by (auto simp add: save_skeet_to_db_def Let_def split: option.splits)
qed

lemma reachable_classified_ok: "reachable s \<Longrightarrow> classified_ok s"
proof (induction rule: reachable.induct)
  case reachable_empty
  show ?case by (simp add: classified_ok_def empty_store_def)
next
  case (reachable_genre s self genre_name)
  then show ?case by (simp add: save_genre_to_db_ok)
next
  case (reachable_book s book_title author genre_name)
  then show ?case
    using save_book_to_db_frame [of book_title author genre_name s]
    by (auto intro: classified_ok_mono [of s])
next
  case (reachable_skeet s self book)
  then show ?case
    using save_skeet_to_db_frame [of self book s]
    by (auto intro: classified_ok_mono [of s])
qed

section \<open>Claims about entity cleaning\<close>

text \<open>
  C3 as stated fails in two ways. A placeholder author is still removed: the raw author
  \<^verbatim>\<open>Unknown\<close> is cleaned to null, yet the code deletes it from
  \<^verbatim>\<open>the unknown soldier\<close> and returns \<^verbatim>\<open>The  Soldier\<close>, where the stated rule, with
  no author to remove, gives \<^verbatim>\<open>The Unknown Soldier\<close>. And when the author occurs, the
  result is built from the lower-cased title: for the title made of U+0130 and
  \<^verbatim>\<open>stanbul by x\<close> with the author \<^verbatim>\<open>x\<close>, the code returns I, U+0307,
  \<^verbatim>\<open>Stanbul By\<close>, where the stated rule (for the raw author \<^verbatim>\<open>x\<close> as for the
  cleaned author \<^verbatim>\<open>X\<close>) keeps U+0130 and gives \<^verbatim>\<open>stanbul By\<close> after it.
\<close>

theorem stated_title_rule_fails:
  "extract_entities (Some ''Unknown'') (Some ''the unknown soldier'') =
     Inr \<lparr> authors = [None], book_titles = [Some ''The  Soldier''] \<rparr> \<and>
   stated_title_rule ascii_methods None ''the unknown soldier'' =
     Some ''The Unknown Soldier'' \<and>
   extract_entities_with code_point_methods (Some (lit code_point_methods ''x''))
       (Some (304 # lit code_point_methods ''stanbul by x'')) =
     Inr \<lparr> authors = [Some (lit code_point_methods ''X'')],
           book_titles = [Some (73 # 775 # lit code_point_methods ''Stanbul By'')] \<rparr> \<and>
   stated_title_rule code_point_methods (Some (lit code_point_methods ''x''))
       (304 # lit code_point_methods ''stanbul by x'') =
     Some (304 # lit code_point_methods ''stanbul By'') \<and>
   stated_title_rule code_point_methods (Some (lit code_point_methods ''X''))
       (304 # lit code_point_methods ''stanbul by x'') =
     Some (304 # lit code_point_methods ''stanbul By'')"
proof -
  have a: "extract_entities (Some ''Unknown'') (Some ''the unknown soldier'') =
     Inr \<lparr> authors = [None], book_titles = [Some ''The  Soldier''] \<rparr>"
    by (simp add: extract_entities_def clean_book_title_def clean_author_def str_defs char_defs)
  have b: "stated_title_rule ascii_methods None ''the unknown soldier'' =
     Some ''The Unknown Soldier''"
    by (simp add: title_rule_defs rule_defs str_defs char_defs)
  have c: "extract_entities_with code_point_methods (Some (lit code_point_methods ''x''))
       (Some (304 # lit code_point_methods ''stanbul by x'')) =
     Inr \<lparr> authors = [Some (lit code_point_methods ''X'')],
           book_titles = [Some (73 # 775 # lit code_point_methods ''Stanbul By'')] \<rparr>"
    by (simp add: extract_entities_with_def clean_book_title_with_def clean_author_with_def
          strip_with_def lstrip_with_def rstrip_with_def split_with_def before_slash_with_def
          lit_def code_point_defs)
  have d: "stated_title_rule code_point_methods (Some (lit code_point_methods ''x''))
       (304 # lit code_point_methods ''stanbul by x'') =
     Some (304 # lit code_point_methods ''stanbul By'')"
    by (simp add: title_rule_defs is_placeholder_def same_ignoring_case_def trimmed_def
          lit_def code_point_defs)
  have e: "stated_title_rule code_point_methods (Some (lit code_point_methods ''X''))
       (304 # lit code_point_methods ''stanbul by x'') =
     Some (304 # lit code_point_methods ''stanbul By'')"
    by (simp add: title_rule_defs is_placeholder_def same_ignoring_case_def trimmed_def
          lit_def code_point_defs)
  from a b c d e show ?thesis by simp
qed


text \<open>
  C3, amended. For every raw title and raw author, and whatever Python's tables are
  as long as the slash is not whitespace and the three placeholder words are their own
  lower-case form, \<^verbatim>\<open>extract_entities\<close> returns a null title when the raw title is
  empty or equals \<^verbatim>\<open>booksky\<close>, \<^verbatim>\<open>unknown\<close> or \<^verbatim>\<open>none\<close> up to case. Otherwise, when
  the raw author is not empty (a placeholder or not) and its lower-cased form occurs in
  the lower-cased title, it returns the lower-cased title with those occurrences
  removed, cut before the first slash, trimmed and title-cased; and when it does not
  occur, the raw title cut before the first slash, trimmed and title-cased.
\<close>

theorem title_cleaning_rule:
  assumes "\<not> is_whitespace m (code_point m (CHR ''/''))"
    and "list_all (\<lambda>w. str_lower m (lit m w) = lit m w) [''booksky'', ''unknown'', ''none'']"
  shows "extract_entities_with m (Some author) (Some book_title) =
           Inr \<lparr> authors = [clean_author_with m author],
                 book_titles = [title_rule m author book_title] \<rparr>"
  by (simp add: extract_entities_with_def clean_book_title_with_rule [OF assms])

theorem title_cleaning_rule_witness:
  "\<not> is_whitespace ascii_methods (code_point ascii_methods (CHR ''/'')) \<and>
   list_all (\<lambda>w. str_lower ascii_methods (lit ascii_methods w) = lit ascii_methods w)
     [''booksky'', ''unknown'', ''none''] \<and>
   extract_entities (Some ''J K Rowling'')
       (Some ''  HARRY potter by j k ROWLING / UK Edition '') =
     Inr \<lparr> authors = [Some ''J K Rowling''], book_titles = [Some ''Harry Potter By''] \<rparr> \<and>
   extract_entities (Some ''J K Rowling'')
       (Some ''Harry Potter And The Philosopher'S Stone / UK Edition'') =
     Inr \<lparr> authors = [Some ''J K Rowling''],
           book_titles = [Some ''Harry Potter And The Philosopher'S Stone''] \<rparr> \<and>
   extract_entities (Some ''J K Rowling'') (Some ''Booksky'') =
     Inr \<lparr> authors = [Some ''J K Rowling''], book_titles = [None] \<rparr>"
proof -
  have sl: "\<not> is_whitespace ascii_methods (code_point ascii_methods (CHR ''/''))"
    by (simp add: ascii_methods_def char_defs)
  have ph: "list_all (\<lambda>w. str_lower ascii_methods (lit ascii_methods w) = lit ascii_methods w)
     [''booksky'', ''unknown'', ''none'']"
    by (simp add: ascii_methods_def lit_def lower_def char_defs)
  note r = title_cleaning_rule [OF sl ph, unfolded extract_entities_with_ascii]
  have a: "clean_author_with ascii_methods ''J K Rowling'' = Some ''J K Rowling''"
    by (simp add: clean_author_with_ascii clean_author_def str_defs char_defs)
  have t1: "title_rule ascii_methods ''J K Rowling''
              ''  HARRY potter by j k ROWLING / UK Edition '' = Some ''Harry Potter By''"
    by (simp add: title_rule_defs rule_defs str_defs char_defs)
  have t2: "title_rule ascii_methods ''J K Rowling''
              ''Harry Potter And The Philosopher'S Stone / UK Edition'' =
            Some ''Harry Potter And The Philosopher'S Stone''"
    by (simp add: title_rule_defs rule_defs str_defs char_defs)
  have t3: "title_rule ascii_methods ''J K Rowling'' ''Booksky'' = None"
    by (simp add: title_rule_defs rule_defs str_defs char_defs)
  show ?thesis
    using sl ph a t1 t2 t3
      r [of "''J K Rowling''" "''  HARRY potter by j k ROWLING / UK Edition ''"]
      r [of "''J K Rowling''" "''Harry Potter And The Philosopher'S Stone / UK Edition''"]
      r [of "''J K Rowling''" "''Booksky''"]
    by simp
qed

text \<open>
  C4. For every raw author, and whatever Python's tables are as long as the space is
  whitespace and the four placeholder words are their own lower-case form,
  \<^verbatim>\<open>extract_entities\<close> returns a null author when the raw author is empty or equals
  \<^verbatim>\<open>unknown\<close>, \<^verbatim>\<open>none\<close>, \<^verbatim>\<open>author\<close> or \<^verbatim>\<open>anonymous\<close> up to case; otherwise it
  returns the raw author with every run of whitespace collapsed to one space, trimmed
  and title-cased.
\<close>

theorem author_cleaning_rule:
  assumes "is_whitespace m (code_point m (CHR '' ''))"
    and "list_all (\<lambda>w. str_lower m (lit m w) = lit m w)
           [''unknown'', ''none'', ''author'', ''anonymous'']"
  shows "extract_entities_with m (Some author) (Some book_title) =
           Inr \<lparr> authors = [author_rule m author],
                 book_titles = [clean_book_title_with m author book_title] \<rparr>"
  unfolding extract_entities_with_def clean_author_with_def author_rule_def
    lower_in_placeholders [OF assms(2)] join_split_with [OF assms(1)]
  by simp

theorem author_cleaning_rule_witness:
  "is_whitespace ascii_methods (code_point ascii_methods (CHR '' '')) \<and>
   list_all (\<lambda>w. str_lower ascii_methods (lit ascii_methods w) = lit ascii_methods w)
     [''unknown'', ''none'', ''author'', ''anonymous''] \<and>
   extract_entities (Some ''  j.k.   rowling  '') (Some ''Dune'') =
     Inr \<lparr> authors = [Some ''J.K. Rowling''], book_titles = [Some ''Dune''] \<rparr> \<and>
   extract_entities (Some (CHR 0x09 # ''J.K.'' @ CHR 0x0A # '' ROWLING '')) (Some ''Dune'') =
     Inr \<lparr> authors = [Some ''J.K. Rowling''], book_titles = [Some ''Dune''] \<rparr> \<and>
   extract_entities (Some ''anonymous'') (Some ''Dune'') =
     Inr \<lparr> authors = [None], book_titles = [Some ''Dune''] \<rparr> \<and>
   extract_entities (Some ''Anonymous'') (Some ''Dune'') =
     Inr \<lparr> authors = [None], book_titles = [Some ''Dune''] \<rparr>"
proof -
  have sp: "is_whitespace ascii_methods (code_point ascii_methods (CHR '' ''))"
    by (simp add: ascii_methods_def char_defs)
  have ph: "list_all (\<lambda>w. str_lower ascii_methods (lit ascii_methods w) = lit ascii_methods w)
     [''unknown'', ''none'', ''author'', ''anonymous'']"
    by (simp add: ascii_methods_def lit_def lower_def char_defs)
  have t: "clean_book_title_with ascii_methods a ''Dune'' = Some ''Dune''"
    if "\<not> contains (lower a) ''dune''" for a
    using that
    by (simp add: clean_book_title_with_ascii clean_book_title_def str_defs char_defs)
  have t1: "\<not> contains (lower ''  j.k.   rowling  '') ''dune''"
    by (simp add: str_defs char_defs)
  have t2: "\<not> contains (lower (CHR 0x09 # ''J.K.'' @ CHR 0x0A # '' ROWLING '')) ''dune''"
    by (simp add: str_defs char_defs)
  have t3: "\<not> contains (lower ''anonymous'') ''dune''"
    by (simp add: str_defs char_defs)
  have t4: "\<not> contains (lower ''Anonymous'') ''dune''"
    by (simp add: str_defs char_defs)
  note r = author_cleaning_rule [OF sp ph, unfolded extract_entities_with_ascii]
  have a1: "author_rule ascii_methods ''  j.k.   rowling  '' = Some ''J.K. Rowling''"
    by (simp add: rule_defs str_defs char_defs)
  have a2: "author_rule ascii_methods (CHR 0x09 # ''J.K.'' @ CHR 0x0A # '' ROWLING '') =
              Some ''J.K. Rowling''"
    by (simp add: rule_defs str_defs char_defs)
  have a3: "author_rule ascii_methods ''anonymous'' = None"
    by (simp add: rule_defs str_defs char_defs)
  have a4: "author_rule ascii_methods ''Anonymous'' = None"
    by (simp add: rule_defs str_defs char_defs)
  show ?thesis
    using sp ph
      r [of "''  j.k.   rowling  ''" "''Dune''"]
      r [of "CHR 0x09 # ''J.K.'' @ CHR 0x0A # '' ROWLING ''" "''Dune''"]
      r [of "''anonymous''" "''Dune''"] r [of "''Anonymous''" "''Dune''"]
      a1 a2 a3 a4 t [OF t1] t [OF t2] t [OF t3] t [OF t4]
    by simp
qed













section \<open>Claims about the persistence operations\<close>

text \<open>
  C8. In every store built from the empty one by the persistence operations (among
  them \<^verbatim>\<open>save_genre_to_db\<close>), each ClassifiedPost row refers to a Post row and a
  Genre row that are in the store, and no (post_id, genre_id) pair has two rows.
\<close>

theorem classification_rows_consistent:
  assumes "reachable s"
  shows "classified_ok s"
  using assms by (rule reachable_classified_ok)

theorem classification_rows_consistent_witness:
  "reachable (save_genre_to_db example_classifier ''fantasy''
               (save_genre_to_db example_classifier ''fantasy'' empty_store)) \<and>
   classified_ok (save_genre_to_db example_classifier ''fantasy''
               (save_genre_to_db example_classifier ''fantasy'' empty_store)) \<and>
   classified_posts (save_genre_to_db example_classifier ''fantasy''
               (save_genre_to_db example_classifier ''fantasy'' empty_store)) =
     [\<lparr> cp_post_id = 1, cp_genre_id = 1 \<rparr>]"
proof -
  have r: "reachable (save_genre_to_db example_classifier ''fantasy''
               (save_genre_to_db example_classifier ''fantasy'' empty_store))"
    by (intro reachable_genre reachable_empty)
  have "classified_posts (save_genre_to_db example_classifier ''fantasy''
               (save_genre_to_db example_classifier ''fantasy'' empty_store)) =
     [\<lparr> cp_post_id = 1, cp_genre_id = 1 \<rparr>]"
    by (simp add: store_defs Let_def)
  with r classification_rows_consistent [OF r] show ?thesis by simp
qed

text \<open>
  C9. \<^verbatim>\<open>save_book_to_db\<close> tests the title after the genre has been committed: with an
  empty title and a genre name that has no row yet, the call fails with the
  empty-title error and the store it leaves has a new Genre row of that name, so it
  differs from the store before the call.
\<close>

theorem empty_title_commits_genre:
  assumes "genre_name \<notin> set (map g_name (genres s))"
  shows "save_book_to_db [] author genre_name s =
           (Inl EmptyTitleError,
            s\<lparr> genres := genres s @
                  [\<lparr> g_id = next_id (map g_id (genres s)), g_name = genre_name,
                     g_description = None \<rparr>] \<rparr>) \<and>
         snd (save_book_to_db [] author genre_name s) \<noteq> s"
proof -
  have n: "find (\<lambda>g. g_name g = genre_name) (genres s) = None"
    using assms by (auto simp add: find_None_iff)
  let ?g = "\<lparr> g_id = next_id (map g_id (genres s)), g_name = genre_name, g_description = None \<rparr>"
  have e: "save_book_to_db [] author genre_name s =
             (Inl EmptyTitleError, s\<lparr> genres := genres s @ [?g] \<rparr>)"
    using n by (simp add: save_book_to_db_def lookup_or_add_genre_def Let_def)
  have "genres (s\<lparr> genres := genres s @ [?g] \<rparr>) \<noteq> genres s" by simp
  then have "s\<lparr> genres := genres s @ [?g] \<rparr> \<noteq> s" by metis
  with e show ?thesis by simp
qed

theorem empty_title_commits_genre_witness:
  "''thriller'' \<notin> set (map g_name (genres empty_store)) \<and>
   save_book_to_db [] (Some ''Frank Herbert'') ''thriller'' empty_store =
     (Inl EmptyTitleError,
      \<lparr> posts = [], genres = [\<lparr> g_id = 1, g_name = ''thriller'', g_description = None \<rparr>],
        classified_posts = [], books = [], saved_skeets = [] \<rparr>)"
  using empty_title_commits_genre [of "''thriller''" empty_store "Some ''Frank Herbert''"]
  by (simp add: empty_store_def next_id_def)

lemma save_genre_to_db_again:
  "save_genre_to_db c n (save_genre_to_db c n s) = save_genre_to_db c n s"
proof -
  obtain p s1 where lp: "lookup_or_add_post c s = (p, s1)" by (cases "lookup_or_add_post c s")
  obtain g s2 where lg: "lookup_or_add_genre n s1 = (g, s2)" by (cases "lookup_or_add_genre n s1")
  note fg = lookup_or_add_genre_frame [OF lg]
  have fp: "find (\<lambda>p. p_text p = post_text c) (posts s2) = Some p"
    using lookup_or_add_post_found [OF lp] fg by simp
  have fgn: "find (\<lambda>g. g_name g = n) (genres s2) = Some g"
    by (rule lookup_or_add_genre_found [OF lg])
  let ?P = "\<lambda>r. cp_post_id r = p_id p \<and> cp_genre_id r = g_id g"
  let ?row = "\<lparr> cp_post_id = p_id p, cp_genre_id = g_id g \<rparr>"
  define s3 where "s3 = save_genre_to_db c n s"
  have s3: "s3 = (if find ?P (classified_posts s2) = None
                  then s2\<lparr> classified_posts := classified_posts s2 @ [?row] \<rparr> else s2)"
    using lp lg by (simp add: s3_def save_genre_to_db_def)
  have p3: "lookup_or_add_post c s3 = (p, s3)"
    using fp s3 by (simp add: lookup_or_add_post_def)
  have g3: "lookup_or_add_genre n s3 = (g, s3)"
    using fgn s3 by (simp add: lookup_or_add_genre_def)
  have "find ?P (classified_posts s3) \<noteq> None"
  proof (cases "find ?P (classified_posts s2)")
    case None
    then show ?thesis using s3 by (simp add: find_snoc)
  next
    case (Some r)
    then show ?thesis using s3 by simp
  qed
  then have "save_genre_to_db c n s3 = s3"
    using p3 g3 by (simp add: save_genre_to_db_def)
  then show ?thesis by (simp add: s3_def)
qed

lemma lookup_or_add_genre_again':
  "lookup_or_add_genre n (snd (lookup_or_add_genre n s)) = lookup_or_add_genre n s"
  using lookup_or_add_genre_again [of n s "fst (lookup_or_add_genre n s)" "snd (lookup_or_add_genre n s)"]
  by simp

lemma length_le_1_nonempty: "length xs \<le> Suc 0 \<Longrightarrow> xs \<noteq> [] \<Longrightarrow> length xs = Suc 0"
  by (cases xs) auto

text \<open>
  C5. The lookup-or-create operations are idempotent. A second genre lookup-or-create
  (the block shared by \<^verbatim>\<open>save_genre_to_db\<close> and \<^verbatim>\<open>save_book_to_db\<close>) returns the same
  Genre row and leaves the store as the first call left it, so no duplicate row appears
  (one row of that name when there was at most one before); \<^verbatim>\<open>save_genre_to_db\<close>
  called twice is the same as called once. For a non-empty title, two
  \<^verbatim>\<open>save_book_to_db\<close> calls with the same title and author return the same Book row,
  also when the genre differs, so the \<^verbatim>\<open>genre_id\<close> written at creation is kept; the
  second call adds no Book row, and exactly one row has that title and author when
  there was at most one before.
\<close>

theorem natural_key_lookup_idempotent:
  assumes "book_title \<noteq> []"
  shows "lookup_or_add_genre genre_name (snd (lookup_or_add_genre genre_name s)) =
           lookup_or_add_genre genre_name s \<and>
         (length (filter (\<lambda>g. g_name g = genre_name) (genres s)) \<le> 1 \<longrightarrow>
            length (filter (\<lambda>g. g_name g = genre_name)
                      (genres (snd (lookup_or_add_genre genre_name s)))) = 1) \<and>
         save_genre_to_db self genre_name (save_genre_to_db self genre_name s) =
           save_genre_to_db self genre_name s \<and>
         (let first_call = save_book_to_db book_title (Some author) genre_name s;
              second_call = save_book_to_db book_title (Some author) other_genre (snd first_call)
          in (\<exists>book. fst first_call = Inr book \<and> fst second_call = Inr book \<and>
                      same_book book_title author book) \<and>
             books (snd second_call) = books (snd first_call) \<and>
             (length (filter (same_book book_title author) (books s)) \<le> 1 \<longrightarrow>
                length (filter (same_book book_title author) (books (snd second_call))) = 1))"
proof -
  obtain g s1 where lg: "lookup_or_add_genre genre_name s = (g, s1)"
    by (cases "lookup_or_add_genre genre_name s")
  have c1: "length (filter (\<lambda>g. g_name g = genre_name) (genres s)) \<le> 1 \<longrightarrow>
            length (filter (\<lambda>g. g_name g = genre_name)
                      (genres (snd (lookup_or_add_genre genre_name s)))) = 1"
    using lookup_or_add_genre_count [OF lg] lg by (auto simp add: length_le_1_nonempty)
  obtain r1 t1 where e1: "save_book_to_db book_title (Some author) genre_name s = (r1, t1)"
    by (cases "save_book_to_db book_title (Some author) genre_name s")
  obtain r2 t2 where e2: "save_book_to_db book_title (Some author) other_genre t1 = (r2, t2)"
    by (cases "save_book_to_db book_title (Some author) other_genre t1")
  from save_book_to_db_found [OF e1 assms] obtain b where
    b: "r1 = Inr b" "find (same_book book_title author) (books t1) = Some b"
    and n1: "length (filter (same_book book_title author) (books t1)) =
               (if filter (same_book book_title author) (books s) = [] then 1
                else length (filter (same_book book_title author) (books s)))"
    by blast
  from save_book_to_db_existing [OF b(2) assms, of other_genre] e2
  have r2: "r2 = Inr b" and bk: "books t2 = books t1" by simp_all
  have sb: "same_book book_title author b" using b(2) by (auto dest: find_Some_mem)
  have c2: "length (filter (same_book book_title author) (books s)) \<le> 1 \<longrightarrow>
            length (filter (same_book book_title author) (books t2)) = 1"
    using n1 bk by (auto simp add: length_le_1_nonempty)
  show ?thesis
    using c1 c2 b(1) r2 bk sb e1 e2
    by (simp add: lookup_or_add_genre_again' save_genre_to_db_again Let_def)
qed

theorem natural_key_lookup_idempotent_witness:
  "''Dune'' \<noteq> [] \<and>
   length (filter (\<lambda>g. g_name g = ''Thriller'') (genres empty_store)) \<le> 1 \<and>
   length (filter (same_book ''Dune'' ''Frank Herbert'') (books empty_store)) \<le> 1 \<and>
   fst (lookup_or_add_genre ''Thriller'' (snd (lookup_or_add_genre ''Thriller'' empty_store))) =
     \<lparr> g_id = 1, g_name = ''Thriller'', g_description = None \<rparr> \<and>
   length (filter (\<lambda>g. g_name g = ''Thriller'')
             (genres (snd (lookup_or_add_genre ''Thriller'' empty_store)))) = 1 \<and>
   length (filter (same_book ''Dune'' ''Frank Herbert'')
             (books (snd (save_book_to_db ''Dune'' (Some ''Frank Herbert'') ''fantasy''
                (snd (save_book_to_db ''Dune'' (Some ''Frank Herbert'') ''Thriller''
                        empty_store)))))) = 1"
proof -
  have n: "''Dune'' \<noteq> []" by simp
  have g: "length (filter (\<lambda>g. g_name g = ''Thriller'') (genres empty_store)) \<le> 1"
    by (simp add: empty_store_def)
  have b: "length (filter (same_book ''Dune'' ''Frank Herbert'') (books empty_store)) \<le> 1"
    by (simp add: empty_store_def)
  have f: "fst (lookup_or_add_genre ''Thriller'' empty_store) =
             \<lparr> g_id = 1, g_name = ''Thriller'', g_description = None \<rparr>"
    by (simp add: lookup_or_add_genre_def empty_store_def next_id_def Let_def)
  note t = natural_key_lookup_idempotent [OF n, of "''Thriller''" empty_store example_classifier
        "''Frank Herbert''" "''fantasy''"]
  from t have i: "lookup_or_add_genre ''Thriller'' (snd (lookup_or_add_genre ''Thriller'' empty_store))
                  = lookup_or_add_genre ''Thriller'' empty_store"
    by blast
  from t g have c: "length (filter (\<lambda>g. g_name g = ''Thriller'')
             (genres (snd (lookup_or_add_genre ''Thriller'' empty_store)))) = 1"
    by blast
  from t b have l: "length (filter (same_book ''Dune'' ''Frank Herbert'')
             (books (snd (save_book_to_db ''Dune'' (Some ''Frank Herbert'') ''fantasy''
                (snd (save_book_to_db ''Dune'' (Some ''Frank Herbert'') ''Thriller''
                        empty_store)))))) = 1"
    unfolding Let_def by blast
  show ?thesis using n g b i c l f by simp
qed

lemma save_skeet_to_db_found:
  assumes fp: "find (\<lambda>p. p_text p = post_text c) (posts s) = Some p"
    and fk: "find (\<lambda>r. ss_post_id r = p_id p \<and> ss_user_id r = 1) (saved_skeets s) = Some k"
  shows "save_skeet_to_db c b s =
           (case b of
              Some bk \<Rightarrow>
                if ss_book_id k = None
                then s\<lparr> saved_skeets :=
                         map (\<lambda>r. if ss_id r = ss_id k then r\<lparr> ss_book_id := Some (b_id bk) \<rparr> else r)
                             (saved_skeets s) \<rparr>
                else s
            | None \<Rightarrow> s)"
  using fp fk by (simp add: save_skeet_to_db_def lookup_or_add_post_def)

lemma save_skeet_to_db_new:
  assumes lp: "lookup_or_add_post c s = (p, s0)"
    and fk: "find (\<lambda>r. ss_post_id r = p_id p \<and> ss_user_id r = 1) (saved_skeets s) = None"
  shows "save_skeet_to_db c b s =
           s0\<lparr> saved_skeets := saved_skeets s @
                 [\<lparr> ss_id = next_id (map ss_id (saved_skeets s)), ss_post_id = p_id p,
                    ss_user_id = 1, ss_book_id = map_option b_id b \<rparr>] \<rparr>"
  using lp fk lookup_or_add_post_frame [OF lp] by (simp add: save_skeet_to_db_def)

lemma map_update_fresh:
  assumes "\<forall>r \<in> set rows. ss_id r \<noteq> i"
  shows "map (\<lambda>r. if ss_id r = i then f r else r) rows = rows"
  using assms by (induction rows) auto

text \<open>
  C6. \<^verbatim>\<open>save_skeet_to_db\<close> keeps one SavedSkeet row per post for its user (the
  constant 1) and fills \<^verbatim>\<open>book_id\<close> only while it is null. Starting from a store with
  no row for the post and user 1, a call without a book, then one with a first book,
  then one with a second book leave exactly one row for the post, whose \<^verbatim>\<open>book_id\<close> is
  the first book's id: the third call changes nothing, and neither does a further call
  without a book.
\<close>

theorem saved_skeet_backfill_once:
  assumes "\<not> list_ex (\<lambda>r. ss_post_id r = p_id (fst (lookup_or_add_post self s)) \<and> ss_user_id r = 1)
               (saved_skeets s)"
  shows "let post = fst (lookup_or_add_post self s);
             mine = (\<lambda>r. ss_post_id r = p_id post \<and> ss_user_id r = 1);
             row = (\<lambda>book_id. \<lparr> ss_id = next_id (map ss_id (saved_skeets s)),
                                 ss_post_id = p_id post, ss_user_id = 1, ss_book_id = book_id \<rparr>);
             s1 = save_skeet_to_db self None s;
             s2 = save_skeet_to_db self (Some first_book) s1;
             s3 = save_skeet_to_db self (Some second_book) s2
         in filter mine (saved_skeets s1) = [row None] \<and>
            filter mine (saved_skeets s2) = [row (Some (b_id first_book))] \<and>
            filter mine (saved_skeets s3) = [row (Some (b_id first_book))] \<and>
            s3 = s2 \<and>
            save_skeet_to_db self None s3 = s3"
proof -
  obtain p s0 where lp: "lookup_or_add_post self s = (p, s0)"
    by (cases "lookup_or_add_post self s")
  let ?mine = "\<lambda>r. ss_post_id r = p_id p \<and> ss_user_id r = 1"
  let ?nid = "next_id (map ss_id (saved_skeets s))"
  let ?row = "\<lambda>book_id. \<lparr> ss_id = ?nid, ss_post_id = p_id p, ss_user_id = 1, ss_book_id = book_id \<rparr>"
  have none: "find ?mine (saved_skeets s) = None"
    using assms lp by (simp add: find_None_iff list_ex_iff)
  have nofilter: "filter ?mine (saved_skeets s) = []"
    using none by (simp add: find_None_filter)
  have fp0: "find (\<lambda>p. p_text p = post_text self) (posts s0) = Some p"
    by (rule lookup_or_add_post_found [OF lp])
  define s1 where "s1 = save_skeet_to_db self None s"
  define s2 where "s2 = save_skeet_to_db self (Some first_book) s1"
  define s3 where "s3 = save_skeet_to_db self (Some second_book) s2"
  have s1: "s1 = s0\<lparr> saved_skeets := saved_skeets s @ [?row None] \<rparr>"
    unfolding s1_def using save_skeet_to_db_new [OF lp none, of None] by simp
  have fp1: "find (\<lambda>p. p_text p = post_text self) (posts s1) = Some p"
    using fp0 s1 by simp
  have fk1: "find ?mine (saved_skeets s1) = Some (?row None)"
    using none s1 by (simp add: find_snoc)
  have fresh: "\<forall>r \<in> set (saved_skeets s). ss_id r \<noteq> ?nid"
    using next_id_fresh [of _ "map ss_id (saved_skeets s)"] by fastforce
  have s2: "s2 = s0\<lparr> saved_skeets := saved_skeets s @ [?row (Some (b_id first_book))] \<rparr>"
    unfolding s2_def using save_skeet_to_db_found [OF fp1 fk1, of "Some first_book"] s1
    by (simp add: map_update_fresh [OF fresh])
  have fp2: "find (\<lambda>p. p_text p = post_text self) (posts s2) = Some p"
    using fp0 s2 by simp
  have fk2: "find ?mine (saved_skeets s2) = Some (?row (Some (b_id first_book)))"
    using none s2 by (simp add: find_snoc)
  have s3: "s3 = s2"
    unfolding s3_def using save_skeet_to_db_found [OF fp2 fk2, of "Some second_book"] by simp
  have again: "save_skeet_to_db self None s3 = s3"
    using save_skeet_to_db_found [OF fp2 fk2, of None] s3 by simp
  have f1: "filter ?mine (saved_skeets s1) = [?row None]"
    using s1 nofilter by simp
  have f2: "filter ?mine (saved_skeets s2) = [?row (Some (b_id first_book))]"
    using s2 nofilter by simp
  show ?thesis
    using f1 f2 s3 again lp
    unfolding Let_def s1_def [symmetric] s2_def [symmetric] s3_def [symmetric]
    by simp
qed

theorem saved_skeet_backfill_once_witness:
  "\<not> list_ex (\<lambda>r. ss_post_id r = p_id (fst (lookup_or_add_post example_classifier empty_store))
                    \<and> ss_user_id r = 1) (saved_skeets empty_store) \<and>
   filter (\<lambda>r. ss_post_id r = 1 \<and> ss_user_id r = 1)
     (saved_skeets (save_skeet_to_db example_classifier (Some book_nine)
        (save_skeet_to_db example_classifier (Some book_seven)
           (save_skeet_to_db example_classifier None empty_store)))) =
     [\<lparr> ss_id = 1, ss_post_id = 1, ss_user_id = 1, ss_book_id = Some 7 \<rparr>]"
proof -
  have h: "\<not> list_ex (\<lambda>r. ss_post_id r = p_id (fst (lookup_or_add_post example_classifier empty_store))
                    \<and> ss_user_id r = 1) (saved_skeets empty_store)"
    by (simp add: empty_store_def)
  have p: "p_id (fst (lookup_or_add_post example_classifier empty_store)) = 1"
    by (simp add: lookup_or_add_post_def empty_store_def next_id_def Let_def)
  have n: "next_id (map ss_id (saved_skeets empty_store)) = 1"
    by (simp add: empty_store_def next_id_def)
  show ?thesis
    using saved_skeet_backfill_once [OF h, of book_seven book_nine] h p n
    by (simp add: Let_def book_seven_def)
qed

section \<open>Claims about the batch pipeline\<close>

lemma find_map_preserve:
  assumes "\<And>r. P (f r) = P r"
  shows "find P (map f xs) = map_option f (find P xs)"
  using assms by (induction xs) simp_all

lemma find_Some_list_ex: "find P xs = Some x \<Longrightarrow> list_ex P xs"
  by (auto simp add: list_ex_iff dest: find_Some_mem)

lemma save_skeet_to_db_row:
  assumes lp: "lookup_or_add_post c s = (p, s0)"
  shows "\<exists>r. find (\<lambda>r. ss_post_id r = p_id p \<and> ss_user_id r = 1)
                (saved_skeets (save_skeet_to_db c b s)) = Some r \<and>
             ss_book_id r =
               (case Option.bind (find (\<lambda>r. ss_post_id r = p_id p \<and> ss_user_id r = 1)
                                    (saved_skeets s)) ss_book_id of
                  Some i \<Rightarrow> Some i
                | None \<Rightarrow> map_option b_id b)"
proof -
  let ?mine = "\<lambda>r. ss_post_id r = p_id p \<and> ss_user_id r = 1"
  note fr = lookup_or_add_post_frame [OF lp]
  have fp0: "find (\<lambda>p. p_text p = post_text c) (posts s0) = Some p"
    by (rule lookup_or_add_post_found [OF lp])
  have sk0: "saved_skeets s0 = saved_skeets s" using fr by simp
  have e0: "save_skeet_to_db c b s = save_skeet_to_db c b s0"
    using lp lookup_or_add_post_again [OF lp] by (simp add: save_skeet_to_db_def)
  show ?thesis
  proof (cases "find ?mine (saved_skeets s)")
    case None
    then show ?thesis
      using save_skeet_to_db_new [OF lp None, of b] by (simp add: find_snoc)
  next
    case (Some k)
    then have fk: "find ?mine (saved_skeets s0) = Some k" using sk0 by simp
    show ?thesis
    proof (cases b)
      case None
      then show ?thesis
        using save_skeet_to_db_found [OF fp0 fk, of b] e0 fk Some
        by (cases "ss_book_id k") simp_all
    next
      case (Some bk)
      note bk = this
      show ?thesis
      proof (cases "ss_book_id k")
        case None
        let ?f = "\<lambda>r. if ss_id r = ss_id k then r\<lparr> ss_book_id := Some (b_id bk) \<rparr> else r"
        have "find ?mine (map ?f (saved_skeets s0)) = map_option ?f (find ?mine (saved_skeets s0))"
          by (rule find_map_preserve) simp
        then show ?thesis
          using save_skeet_to_db_found [OF fp0 fk, of b] e0 fk \<open>find ?mine (saved_skeets s) = Some k\<close>
            bk None
          by simp
      next
        case (Some i)
        then show ?thesis
          using save_skeet_to_db_found [OF fp0 fk, of b] e0 fk \<open>find ?mine (saved_skeets s) = Some k\<close> bk
          by simp
      qed
    qed
  qed
qed

lemma save_skeet_to_db_posts:
  assumes "find (\<lambda>p. p_text p = post_text c) (posts s) = Some p"
  shows "posts (save_skeet_to_db c b s) = posts s"
  using assms
  by (auto simp add: save_skeet_to_db_def lookup_or_add_post_def Let_def split: option.splits)

lemma save_genre_to_db_classified: "classified c (save_genre_to_db c n s)"
proof -
  obtain p s1 where lp: "lookup_or_add_post c s = (p, s1)" by (cases "lookup_or_add_post c s")
  obtain g s2 where lg: "lookup_or_add_genre n s1 = (g, s2)" by (cases "lookup_or_add_genre n s1")
  note fg = lookup_or_add_genre_frame [OF lg]
  have fp: "find (\<lambda>p. p_text p = post_text c) (posts s2) = Some p"
    using lookup_or_add_post_found [OF lp] fg by simp
  let ?P = "\<lambda>r. cp_post_id r = p_id p \<and> cp_genre_id r = g_id g"
  show ?thesis
  proof (cases "find ?P (classified_posts s2)")
    case None
    then show ?thesis using lp lg fp
      by (simp add: save_genre_to_db_def classified_def)
  next
    case (Some r)
    then have "r \<in> set (classified_posts s2) \<and> cp_post_id r = p_id p"
      by (auto dest: find_Some_mem)
    then have "list_ex (\<lambda>r. cp_post_id r = p_id p) (classified_posts s2)"
      by (auto simp add: list_ex_iff)
    with Some show ?thesis using lp lg fp
      by (simp add: save_genre_to_db_def classified_def)
  qed
qed

lemma save_book_to_db_classified:
  "classified c s \<Longrightarrow> classified c (snd (save_book_to_db t a n s))"
  using save_book_to_db_frame [of t a n s] by (simp add: classified_def split: option.splits)

lemma save_skeet_to_db_persisted:
  assumes "classified c s"
  shows "persisted c (save_skeet_to_db c b s)"
proof -
  from assms obtain p where fp: "find (\<lambda>p. p_text p = post_text c) (posts s) = Some p"
    and cl: "list_ex (\<lambda>r. cp_post_id r = p_id p) (classified_posts s)"
    by (auto simp add: classified_def split: option.splits)
  have lp: "lookup_or_add_post c s = (p, s)" using fp by (simp add: lookup_or_add_post_def)
  from save_skeet_to_db_row [OF lp, of b] obtain r where
    "find (\<lambda>r. ss_post_id r = p_id p \<and> ss_user_id r = 1)
       (saved_skeets (save_skeet_to_db c b s)) = Some r" by blast
  then have sk: "list_ex (\<lambda>r. ss_post_id r = p_id p \<and> ss_user_id r = 1)
       (saved_skeets (save_skeet_to_db c b s))" by (rule find_Some_list_ex)
  show ?thesis
    using fp cl sk save_skeet_to_db_posts [OF fp, of b] save_skeet_to_db_frame [of c b s]
    by (simp add: persisted_def)
qed

lemma save_entities_single:
  "save_entities c g [(a, t)] s =
     (case t of
        None \<Rightarrow> (None, save_skeet_to_db c None s)
      | Some x \<Rightarrow>
          if x = [] then (None, save_skeet_to_db c None s)
          else (case save_book_to_db x a g s of
                  (Inl e, s1) \<Rightarrow> (Some e, s1)
                | (Inr b, s1) \<Rightarrow> (None, save_skeet_to_db c (Some b) s1)))"
  by (simp split: option.splits prod.splits sum.splits)

lemma process_post_answered:
  assumes "fromisoformat w = Some ts" and "classify_genre w = Some g"
    and "extract_author w = Some a" and "extract_book_title w = Some t"
  shows "process_post (rp, w) s =
           save_entities (new_classifier rp ts) g [(clean_author a, clean_book_title a t)]
             (save_genre_to_db (new_classifier rp ts) g s)"
  using assms by (simp add: process_post_def extract_entities_def Let_def)

lemma process_post_unclassified:
  assumes "fromisoformat w = Some ts" and "classify_genre w = None"
  shows "process_post (rp, w) s = (Some ExternalServiceError, s)"
  using assms by (simp add: process_post_def)

lemma save_entities_single_persisted:
  assumes "classified c s" and "save_entities c g [(a, t)] s = (None, s1)"
  shows "persisted c s1"
proof -
  have bookless: "persisted c (save_skeet_to_db c None s)"
    by (rule save_skeet_to_db_persisted [OF assms(1)])
  show ?thesis
  proof (cases t)
    case None
    with assms(2) bookless show ?thesis by (simp add: save_entities_single)
  next
    case (Some x)
    show ?thesis
    proof (cases "x = []")
      case True
      with Some assms(2) bookless show ?thesis by (simp add: save_entities_single)
    next
      case False
      obtain r s2 where sb: "save_book_to_db x a g s = (r, s2)"
        by (cases "save_book_to_db x a g s")
      have c2: "classified c s2"
        using save_book_to_db_classified [OF assms(1), of x a g] sb by simp
      from assms(2) Some False sb obtain b where "r = Inr b"
        and "s1 = save_skeet_to_db c (Some b) s2"
        by (cases r) (simp_all add: save_entities_single)
      then show ?thesis using save_skeet_to_db_persisted [OF c2] by simp
    qed
  qed
qed

lemma process_post_persisted:
  assumes "process_post (rp, w) s = (None, s1)"
  shows "case fromisoformat w of
           None \<Rightarrow> False
         | Some ts \<Rightarrow> persisted (new_classifier rp ts) s1"
proof (cases "fromisoformat w")
  case None
  with assms show ?thesis by (simp add: process_post_def)
next
  case (Some ts)
  note ts = this
  show ?thesis
  proof (cases "classify_genre w")
    case None
    with assms ts show ?thesis by (simp add: process_post_def)
  next
    case (Some g)
    note g = this
    from assms ts g obtain a t where a: "extract_author w = Some a"
      and t: "extract_book_title w = Some t"
      by (cases "extract_author w"; cases "extract_book_title w")
         (simp_all add: process_post_def extract_entities_def)
    have "persisted (new_classifier rp ts) s1"
      using assms process_post_answered [OF ts g a t, of rp s]
        save_entities_single_persisted [OF save_genre_to_db_classified]
      by simp
    with ts show ?thesis by simp
  qed
qed

lemma classify_and_save_posts_stops:
  assumes "classify_and_save_posts before s = (None, s1)"
    and "process_post failing s1 = (Some e, s2)"
  shows "classify_and_save_posts (before @ failing # rest) s = (Some e, s2)"
  using assms
proof (induction before arbitrary: s)
  case Nil
  then show ?case by simp
next
  case (Cons p ps)
  obtain r t where pp: "process_post p s = (r, t)" by (cases "process_post p s")
  with Cons.prems(1) have r: "r = None" by (cases r) simp_all
  with Cons pp show ?case by simp
qed

lemma first_post_run:
  "process_post (raw ''first'', answers (Some ''fantasy'') ''Ann Lee'' ''Dune'') empty_store =
     (None, first_store)"
  by (simp add: pipeline_defs store_defs str_defs char_defs first_store_def Let_def)


text \<open>
  C1 as stated fails: the loop of \<^verbatim>\<open>classify_and_save_posts\<close> has no exception
  handler. In the batch \<open>three_posts\<close> the classification call of the second post
  raises; the run ends with that error and the store holds the first post only, so the
  third post is not persisted.
\<close>

theorem third_post_not_persisted:
  "fst (classify_and_save_posts three_posts empty_store) = Some ExternalServiceError \<and>
   map p_text (posts (snd (classify_and_save_posts three_posts empty_store))) = [''first'']"
  using first_post_run
  by (simp add: three_posts_def process_post_def answers_def first_store_def)


text \<open>
  C1, amended. A failure while processing one post leaves \<^verbatim>\<open>classify_and_save_posts\<close>
  and ends the batch. For every batch of three posts in which the first post is
  processed without error and the classification call of the second raises, the run
  returns the external-service error, the first post is persisted (Post,
  ClassifiedPost and SavedSkeet rows), and the store is the one the first post left:
  the third post is not processed.
\<close>

theorem failure_ends_batch:
  assumes "process_post first s = (None, s1)"
    and "fromisoformat (snd second) = Some ts" and "classify_genre (snd second) = None"
  shows "classify_and_save_posts [first, second, third] s = (Some ExternalServiceError, s1) \<and>
         (case fromisoformat (snd first) of
            None \<Rightarrow> False
          | Some ts1 \<Rightarrow> persisted (new_classifier (fst first) ts1) s1)"
proof -
  have f: "classify_and_save_posts [first] s = (None, s1)" using assms(1) by simp
  have p: "process_post second s1 = (Some ExternalServiceError, s1)"
    using process_post_unclassified [OF assms(2,3), of "fst second" s1] by simp
  have "classify_and_save_posts ([first] @ second # [third]) s = (Some ExternalServiceError, s1)"
    by (rule classify_and_save_posts_stops [OF f p])
  moreover have "case fromisoformat (snd first) of
            None \<Rightarrow> False
          | Some ts1 \<Rightarrow> persisted (new_classifier (fst first) ts1) s1"
    using process_post_persisted [of "fst first" "snd first" s s1] assms(1) by simp
  ultimately show ?thesis by simp
qed

theorem failure_ends_batch_witness:
  "process_post (raw ''first'', answers (Some ''fantasy'') ''Ann Lee'' ''Dune'') empty_store =
     (None, first_store) \<and>
   fromisoformat (snd (raw ''second'', answers None ''Ann Lee'' ''Dune'')) = Some 0 \<and>
   classify_genre (snd (raw ''second'', answers None ''Ann Lee'' ''Dune'')) = None \<and>
   classify_and_save_posts three_posts empty_store = (Some ExternalServiceError, first_store) \<and>
   persisted (new_classifier (raw ''first'') 0) first_store"
proof -
  have a: "fromisoformat (snd (raw ''second'', answers None ''Ann Lee'' ''Dune'')) = Some 0"
    by (simp add: answers_def)
  have b: "classify_genre (snd (raw ''second'', answers None ''Ann Lee'' ''Dune'')) = None"
    by (simp add: answers_def)
  have c: "fromisoformat (snd (raw ''first'', answers (Some ''fantasy'') ''Ann Lee'' ''Dune'')) = Some 0"
    by (simp add: answers_def)
  show ?thesis
    using failure_ends_batch [OF first_post_run a b,
        of "(raw ''third'', answers (Some ''fantasy'') ''Ann Lee'' ''Dune'')"]
      first_post_run a b c
    by (simp add: three_posts_def)
qed

lemma slash_title_cleaned: "clean_book_title '''' ''/x'' = Some []"
  by (simp add: clean_book_title_def str_defs char_defs)

lemma author_only_title_cleaned: "clean_book_title ''Ann Lee'' ''ann lee'' = Some []"
  by (simp add: clean_book_title_def str_defs char_defs)


text \<open>
  C7 as stated fails in two ways. Where the cleaned title is the empty string it is
  not null, yet the post is saved without a book and \<^verbatim>\<open>save_book_to_db\<close>, which would
  have raised on the empty title, is not called. And where the post already has a
  SavedSkeet with a book, a run that extracts another book leaves the row as it is:
  after \<^verbatim>\<open>Dune\<close> (book 1), a second run on the same post that extracts \<^verbatim>\<open>Emma\<close>
  creates book 2 and the row keeps \<^verbatim>\<open>book_id\<close> 1.
\<close>

theorem persisted_step_as_stated_fails:
  "clean_book_title '''' ''/x'' = Some [] \<and>
   process_post (raw ''first'', answers (Some ''fantasy'') '''' ''/x'') empty_store =
     (None, bookless_store) \<and>
   fst (save_book_to_db [] None ''fantasy''
          (save_genre_to_db (new_classifier (raw ''first'') 0) ''fantasy'' empty_store)) =
     Inl EmptyTitleError \<and>
   process_post (raw ''first'', answers (Some ''fantasy'') ''Ann Lee'' ''Emma'') first_store =
     (None, second_store)"
  by (simp add: pipeline_defs store_defs str_defs char_defs bookless_store_def first_store_def
        second_store_def Let_def)

lemma process_post_extracted:
  assumes "fromisoformat w = Some ts" and "classify_genre w = Some g"
    and "extract_entities (extract_author w) (extract_book_title w) =
           Inr \<lparr> authors = [author], book_titles = [cleaned_title] \<rparr>"
  shows "process_post (rp, w) s =
           save_entities (new_classifier rp ts) g [(author, cleaned_title)]
             (save_genre_to_db (new_classifier rp ts) g s)"
  using assms by (simp add: process_post_def Let_def)


text \<open>
  C7, amended. The PERSISTED step of a post is the loop over the cleaned
  (author, title) pairs, run on the store left by the classification step; for a post
  whose extraction returned one pair, \<^verbatim>\<open>process_post\<close> ends with this step. Whatever
  the cleaned author and title are, the step branches on whether the cleaned title is
  null or empty. If it is, \<^verbatim>\<open>save_skeet_to_db\<close> is called without a book: the post has
  a SavedSkeet row under user id 1 afterwards, with a null \<^verbatim>\<open>book_id\<close> unless the row
  was there with one. Otherwise, for a cleaned author that is not null,
  \<^verbatim>\<open>save_book_to_db\<close> runs first with the title, the author and the genre and returns
  a book, and \<^verbatim>\<open>save_skeet_to_db\<close> is called with it: the post has a SavedSkeet row
  under user id 1 afterwards, with that book's id unless the row was there with a
  \<^verbatim>\<open>book_id\<close> that was not null, which it keeps.
\<close>

theorem persisted_step_branches:
  "let self = new_classifier rp ts;
       s1 = save_genre_to_db self g s;
       step = save_entities self g [(author, cleaned_title)] s1;
       post = fst (lookup_or_add_post self s1);
       mine = (\<lambda>r. ss_post_id r = p_id post \<and> ss_user_id r = 1);
       prior = Option.bind (find mine (saved_skeets s1)) ss_book_id
   in (fromisoformat w = Some ts \<and> classify_genre w = Some g \<and>
       extract_entities (extract_author w) (extract_book_title w) =
         Inr \<lparr> authors = [author], book_titles = [cleaned_title] \<rparr> \<longrightarrow>
         process_post (rp, w) s = step) \<and>
      (cleaned_title = None \<or> cleaned_title = Some [] \<longrightarrow>
         step = (None, save_skeet_to_db self None s1) \<and>
         (\<exists>r. find mine (saved_skeets (save_skeet_to_db self None s1)) = Some r \<and>
              ss_user_id r = 1 \<and> ss_book_id r = prior)) \<and>
      (\<forall>x a. cleaned_title = Some x \<and> x \<noteq> [] \<and> author = Some a \<longrightarrow>
         (\<exists>book s2.
            save_book_to_db x (Some a) g s1 = (Inr book, s2) \<and>
            same_book x a book \<and> book \<in> set (books s2) \<and>
            step = (None, save_skeet_to_db self (Some book) s2) \<and>
            (\<exists>r. find mine (saved_skeets (save_skeet_to_db self (Some book) s2)) = Some r \<and>
                 ss_user_id r = 1 \<and>
                 ss_book_id r =
                   (case prior of Some i \<Rightarrow> Some i | None \<Rightarrow> Some (b_id book)))))"
proof -
  define self where "self = new_classifier rp ts"
  define s1 where "s1 = save_genre_to_db self g s"
  define step where "step = save_entities self g [(author, cleaned_title)] s1"
  obtain p where fp: "find (\<lambda>p. p_text p = post_text self) (posts s1) = Some p"
    using save_genre_to_db_classified [of self g s]
    by (auto simp add: s1_def classified_def split: option.splits)
  have lp1: "lookup_or_add_post self s1 = (p, s1)"
    using fp by (simp add: lookup_or_add_post_def)
  then have post: "fst (lookup_or_add_post self s1) = p" by simp
  let ?mine = "\<lambda>r. ss_post_id r = p_id p \<and> ss_user_id r = 1"
  define prior where "prior = Option.bind (find ?mine (saved_skeets s1)) ss_book_id"
  have b0: "fromisoformat w = Some ts \<and> classify_genre w = Some g \<and>
            extract_entities (extract_author w) (extract_book_title w) =
              Inr \<lparr> authors = [author], book_titles = [cleaned_title] \<rparr> \<longrightarrow>
            process_post (rp, w) s = step"
    using process_post_extracted [of w ts g author cleaned_title rp s]
    by (simp add: self_def s1_def step_def del: save_entities.simps)
  have row: "\<exists>r. find ?mine (saved_skeets (save_skeet_to_db self book s2)) = Some r \<and>
                 ss_user_id r = 1 \<and>
                 ss_book_id r = (case prior of Some i \<Rightarrow> Some i | None \<Rightarrow> map_option b_id book)"
    if ps: "posts s2 = posts s1" and sk: "saved_skeets s2 = saved_skeets s1" for book s2
  proof -
    have lp: "lookup_or_add_post self s2 = (p, s2)"
      using fp ps by (simp add: lookup_or_add_post_def)
    from save_skeet_to_db_row [OF lp, of book] obtain r where
      r: "find ?mine (saved_skeets (save_skeet_to_db self book s2)) = Some r"
      "ss_book_id r =
         (case Option.bind (find ?mine (saved_skeets s2)) ss_book_id of
            Some i \<Rightarrow> Some i
          | None \<Rightarrow> map_option b_id book)"
      by blast
    from r(1) have "ss_user_id r = 1" by (auto dest: find_Some_mem)
    with r sk show ?thesis by (auto simp add: prior_def)
  qed
  have b1: "cleaned_title = None \<or> cleaned_title = Some [] \<longrightarrow>
              step = (None, save_skeet_to_db self None s1) \<and>
              (\<exists>r. find ?mine (saved_skeets (save_skeet_to_db self None s1)) = Some r \<and>
                   ss_user_id r = 1 \<and> ss_book_id r = prior)"
  proof -
    have "\<exists>r. find ?mine (saved_skeets (save_skeet_to_db self None s1)) = Some r \<and>
               ss_user_id r = 1 \<and> ss_book_id r = prior"
      using row [OF refl refl, of None] by (cases prior) auto
    then show ?thesis
      by (auto simp add: step_def save_entities_single simp del: save_entities.simps)
  qed
  have b2: "\<exists>book s2.
              save_book_to_db x (Some a) g s1 = (Inr book, s2) \<and>
              same_book x a book \<and> book \<in> set (books s2) \<and>
              step = (None, save_skeet_to_db self (Some book) s2) \<and>
              (\<exists>r. find ?mine (saved_skeets (save_skeet_to_db self (Some book) s2)) = Some r \<and>
                   ss_user_id r = 1 \<and>
                   ss_book_id r = (case prior of Some i \<Rightarrow> Some i | None \<Rightarrow> Some (b_id book)))"
    if t: "cleaned_title = Some x" and x: "x \<noteq> []" and a: "author = Some a" for x a
  proof -
    obtain res s2 where sb: "save_book_to_db x (Some a) g s1 = (res, s2)"
      by (cases "save_book_to_db x (Some a) g s1")
    from save_book_to_db_found [OF sb x] obtain book where
      res: "res = Inr book" and fb: "find (same_book x a) (books s2) = Some book"
      by blast
    have mem: "book \<in> set (books s2)" "same_book x a book"
      using fb by (auto dest: find_Some_mem)
    have fr: "posts s2 = posts s1" "saved_skeets s2 = saved_skeets s1"
      using save_book_to_db_frame [of x "Some a" g s1] sb by simp_all
    have run: "step = (None, save_skeet_to_db self (Some book) s2)"
      using t x a sb res
      by (simp add: step_def save_entities_single del: save_entities.simps)
    have "\<exists>r. find ?mine (saved_skeets (save_skeet_to_db self (Some book) s2)) = Some r \<and>
               ss_user_id r = 1 \<and>
               ss_book_id r = (case prior of Some i \<Rightarrow> Some i | None \<Rightarrow> Some (b_id book))"
      using row [OF fr, of "Some book"] by (cases prior) auto
    with sb res mem run show ?thesis by auto
  qed
  show ?thesis
    unfolding Let_def self_def [symmetric] s1_def [symmetric] step_def [symmetric] post
      prior_def [symmetric]
    using b0 b1 b2 by blast
qed


theorem persisted_step_branches_witness:
  "fromisoformat (answers (Some ''fantasy'') ''Ann Lee'' ''Dune'') = Some 0 \<and>
   classify_genre (answers (Some ''fantasy'') ''Ann Lee'' ''Dune'') = Some ''fantasy'' \<and>
   extract_entities (extract_author (answers (Some ''fantasy'') ''Ann Lee'' ''Dune''))
       (extract_book_title (answers (Some ''fantasy'') ''Ann Lee'' ''Dune'')) =
     Inr \<lparr> authors = [Some ''Ann Lee''], book_titles = [Some ''Dune''] \<rparr> \<and>
   (\<exists>book s2.
      save_book_to_db ''Dune'' (Some ''Ann Lee'') ''fantasy''
        (save_genre_to_db (new_classifier (raw ''first'') 0) ''fantasy'' empty_store) =
        (Inr book, s2) \<and>
      process_post (raw ''first'', answers (Some ''fantasy'') ''Ann Lee'' ''Dune'') empty_store =
        (None, save_skeet_to_db (new_classifier (raw ''first'') 0) (Some book) s2)) \<and>
   extract_entities (extract_author (answers (Some ''fantasy'') '''' ''/x''))
       (extract_book_title (answers (Some ''fantasy'') '''' ''/x'')) =
     Inr \<lparr> authors = [None], book_titles = [Some []] \<rparr> \<and>
   process_post (raw ''first'', answers (Some ''fantasy'') '''' ''/x'') empty_store =
     (None, save_skeet_to_db (new_classifier (raw ''first'') 0) None
              (save_genre_to_db (new_classifier (raw ''first'') 0) ''fantasy'' empty_store))"
proof -
  have f: "fromisoformat (answers (Some ''fantasy'') a t) = Some 0"
    and c: "classify_genre (answers (Some ''fantasy'') a t) = Some ''fantasy''" for a t
    by (simp_all add: answers_def)
  have e1: "extract_entities (extract_author (answers (Some ''fantasy'') ''Ann Lee'' ''Dune''))
       (extract_book_title (answers (Some ''fantasy'') ''Ann Lee'' ''Dune'')) =
     Inr \<lparr> authors = [Some ''Ann Lee''], book_titles = [Some ''Dune''] \<rparr>"
    by (simp add: answers_def extract_entities_def clean_book_title_def clean_author_def
          str_defs char_defs)
  have e2: "extract_entities (extract_author (answers (Some ''fantasy'') '''' ''/x''))
       (extract_book_title (answers (Some ''fantasy'') '''' ''/x'')) =
     Inr \<lparr> authors = [None], book_titles = [Some []] \<rparr>"
    by (simp add: answers_def extract_entities_def clean_book_title_def clean_author_def
          str_defs char_defs)
  note dune = persisted_step_branches [where rp = "raw ''first''" and ts = 0
      and g = "''fantasy''" and s = empty_store and author = "Some ''Ann Lee''"
      and cleaned_title = "Some ''Dune''"
      and w = "answers (Some ''fantasy'') ''Ann Lee'' ''Dune''", unfolded Let_def]
  have b: "\<exists>book s2.
      save_book_to_db ''Dune'' (Some ''Ann Lee'') ''fantasy''
        (save_genre_to_db (new_classifier (raw ''first'') 0) ''fantasy'' empty_store) =
        (Inr book, s2) \<and>
      process_post (raw ''first'', answers (Some ''fantasy'') ''Ann Lee'' ''Dune'') empty_store =
        (None, save_skeet_to_db (new_classifier (raw ''first'') 0) (Some book) s2)"
  proof -
    have run: "process_post (raw ''first'', answers (Some ''fantasy'') ''Ann Lee'' ''Dune'')
                 empty_store =
               save_entities (new_classifier (raw ''first'') 0) ''fantasy''
                 [(Some ''Ann Lee'', Some ''Dune'')]
                 (save_genre_to_db (new_classifier (raw ''first'') 0) ''fantasy'' empty_store)"
      using dune f c e1 by blast
    have "''Dune'' \<noteq> []" by simp
    with dune obtain book s2 where
      "save_book_to_db ''Dune'' (Some ''Ann Lee'') ''fantasy''
        (save_genre_to_db (new_classifier (raw ''first'') 0) ''fantasy'' empty_store) =
        (Inr book, s2)"
      "save_entities (new_classifier (raw ''first'') 0) ''fantasy''
         [(Some ''Ann Lee'', Some ''Dune'')]
         (save_genre_to_db (new_classifier (raw ''first'') 0) ''fantasy'' empty_store) =
       (None, save_skeet_to_db (new_classifier (raw ''first'') 0) (Some book) s2)"
      by blast
    with run show ?thesis by metis
  qed
  note slash = persisted_step_branches [where rp = "raw ''first''" and ts = 0
      and g = "''fantasy''" and s = empty_store and author = None
      and cleaned_title = "Some []"
      and w = "answers (Some ''fantasy'') '''' ''/x''", unfolded Let_def]
  have n: "process_post (raw ''first'', answers (Some ''fantasy'') '''' ''/x'') empty_store =
     (None, save_skeet_to_db (new_classifier (raw ''first'') 0) None
              (save_genre_to_db (new_classifier (raw ''first'') 0) ''fantasy'' empty_store))"
  proof -
    have "process_post (raw ''first'', answers (Some ''fantasy'') '''' ''/x'') empty_store =
          save_entities (new_classifier (raw ''first'') 0) ''fantasy'' [(None, Some [])]
            (save_genre_to_db (new_classifier (raw ''first'') 0) ''fantasy'' empty_store)"
      using slash f c e2 by blast
    moreover have "save_entities (new_classifier (raw ''first'') 0) ''fantasy'' [(None, Some [])]
            (save_genre_to_db (new_classifier (raw ''first'') 0) ''fantasy'' empty_store) =
          (None, save_skeet_to_db (new_classifier (raw ''first'') 0) None
              (save_genre_to_db (new_classifier (raw ''first'') 0) ''fantasy'' empty_store))"
      using slash by blast
    ultimately show ?thesis by simp
  qed
  from f c e1 e2 b n show ?thesis by blast
qed

text \<open>
  The case C7, amended, leaves out: with a null cleaned author and a cleaned title that
  is not empty, the insert of the Book breaks the \<^verbatim>\<open>NOT NULL\<close> constraint of the
  \<^verbatim>\<open>author\<close> column (\<^verbatim>\<open>author: str\<close>), the step ends in that error and no SavedSkeet
  is written.
\<close>

lemma null_author_ends_step:
  assumes "fromisoformat w = Some ts" and "classify_genre w = Some g"
    and "extract_entities (extract_author w) (extract_book_title w) =
           Inr \<lparr> authors = [None], book_titles = [Some x] \<rparr>"
    and "x \<noteq> []"
  shows "fst (process_post (rp, w) s) = Some IntegrityError \<and>
         saved_skeets (snd (process_post (rp, w) s)) = saved_skeets s"
proof -
  let ?self = "new_classifier rp ts"
  let ?s1 = "save_genre_to_db ?self g s"
  have sk: "saved_skeets ?s1 = saved_skeets s"
    by (auto simp add: save_genre_to_db_def lookup_or_add_post_def lookup_or_add_genre_def
          Let_def split: option.splits)
  obtain gr s2 where lg: "lookup_or_add_genre g ?s1 = (gr, s2)"
    by (cases "lookup_or_add_genre g ?s1")
  have "find (\<lambda>b. b_title b = x \<and> Some (b_author b) = None) (books s2) = None"
    by (simp add: find_None_iff)
  then have "save_book_to_db x None g ?s1 = (Inl IntegrityError, s2)"
    using lg assms(4) by (simp add: save_book_to_db_def)
  moreover have "saved_skeets s2 = saved_skeets ?s1"
    using lookup_or_add_genre_frame [OF lg] by simp
  ultimately show ?thesis
    using process_post_extracted [OF assms(1-3), of rp s] assms(4) sk by simp
qed

lemma save_book_to_db_not_empty_title:
  "t \<noteq> [] \<Longrightarrow> fst (save_book_to_db t a g s) \<noteq> Inl EmptyTitleError"
  by (simp add: save_book_to_db_def Let_def split: prod.splits option.splits)

lemma save_entities_not_empty_title:
  "fst (save_entities c g pairs s) \<noteq> Some EmptyTitleError"
proof (induction pairs arbitrary: s)
  case Nil
  show ?case by simp
next
  case (Cons pr pairs)
  obtain a t where pr: "pr = (a, t)" by (cases pr)
  show ?case
  proof (cases t)
    case None
    with pr Cons show ?thesis by simp
  next
    case (Some x)
    show ?thesis
    proof (cases "x = []")
      case True
      with pr Some Cons show ?thesis by simp
    next
      case False
      obtain r s1 where sb: "save_book_to_db x a g s = (r, s1)"
        by (cases "save_book_to_db x a g s")
      have "r \<noteq> Inl EmptyTitleError"
        using save_book_to_db_not_empty_title [OF False, of a g s] sb by simp
      with pr Some False sb Cons show ?thesis by (cases r) simp_all
    qed
  qed
qed

lemma process_post_not_empty_title:
  "fst (process_post fetched s) \<noteq> Some EmptyTitleError"
proof -
  obtain rp w where f: "fetched = (rp, w)" by (cases fetched)
  show ?thesis
    unfolding f process_post_def extract_entities_def
    by (simp add: Let_def save_entities_not_empty_title del: save_entities.simps
         split: option.splits)
qed

lemma classify_and_save_posts_not_empty_title:
  "fst (classify_and_save_posts batch s) \<noteq> Some EmptyTitleError"
proof (induction batch arbitrary: s)
  case Nil
  show ?case by simp
next
  case (Cons p ps)
  obtain r s1 where pp: "process_post p s = (r, s1)" by (cases "process_post p s")
  have "r \<noteq> Some EmptyTitleError" using process_post_not_empty_title [of p s] pp by simp
  with pp Cons show ?case by (cases r) simp_all
qed


text \<open>
  C10. \<^verbatim>\<open>extract_entities\<close> can return the empty string as cleaned title: when the raw
  title is just the author's name, or starts with a slash. Every post whose cleaned
  title is empty is saved without a book, and no run of the batch pipeline ends in the
  empty-title error of \<^verbatim>\<open>save_book_to_db\<close>.
\<close>

theorem empty_title_error_unreachable:
  "clean_book_title ''Ann Lee'' ''ann lee'' = Some [] \<and>
   clean_book_title '''' ''/x'' = Some [] \<and>
   (fromisoformat w = Some ts \<longrightarrow> classify_genre w = Some g \<longrightarrow>
    extract_author w = Some a \<longrightarrow> extract_book_title w = Some t \<longrightarrow>
    clean_book_title a t = Some [] \<longrightarrow>
      process_post (rp, w) s =
        (None, save_skeet_to_db (new_classifier rp ts) None
                 (save_genre_to_db (new_classifier rp ts) g s))) \<and>
   fst (classify_and_save_posts batch s) \<noteq> Some EmptyTitleError"
  using slash_title_cleaned author_only_title_cleaned
  by (simp add: process_post_answered classify_and_save_posts_not_empty_title)

theorem empty_title_error_unreachable_witness:
  "fromisoformat (answers (Some ''fantasy'') '''' ''/x'') = Some 0 \<and>
   classify_genre (answers (Some ''fantasy'') '''' ''/x'') = Some ''fantasy'' \<and>
   extract_author (answers (Some ''fantasy'') '''' ''/x'') = Some '''' \<and>
   extract_book_title (answers (Some ''fantasy'') '''' ''/x'') = Some ''/x'' \<and>
   clean_book_title '''' ''/x'' = Some [] \<and>
   process_post (raw ''first'', answers (Some ''fantasy'') '''' ''/x'') empty_store =
     (None, save_skeet_to_db (new_classifier (raw ''first'') 0) None
              (save_genre_to_db (new_classifier (raw ''first'') 0) ''fantasy'' empty_store)) \<and>
   fst (classify_and_save_posts three_posts empty_store) \<noteq> Some EmptyTitleError"
  using empty_title_error_unreachable [of "answers (Some ''fantasy'') '''' ''/x''" 0 "''fantasy''"
      "''''" "''/x''" "raw ''first''" empty_store three_posts]
  by (simp add: answers_def)

end
